theory Spec2Isabelle
  imports Complex_Main "HOL-Library.Sublist" "HOL-Library.AList" "HOL-Library.Multiset"
begin

section \<open>JavaScript numbers\<close>

text \<open>
  The module computes with JavaScript numbers. A number is modelled as an exact rational
  or \<open>NaN\<close>. Double arithmetic agrees with the exact arithmetic used here as long as every
  operand and result is an integer below \<open>2 ^ 53\<close>, which is the range of monetary values
  and byte sizes the module is meant for. \<open>undefined\<close> only ever reaches arithmetic, where
  it coerces to \<open>NaN\<close>, so it is represented by \<open>NaN\<close> too. Comparisons with \<open>NaN\<close> are
  false. The infinities are not represented: no operation of the module produces one
  from finite operands.
\<close>

datatype number = Fin rat | NaN

instantiation number :: "{zero, one, plus, minus, times, ord}"
begin

definition zero_number :: number where
  "zero_number = Fin 0"

definition one_number :: number where
  "one_number = Fin 1"

fun plus_number :: "number \<Rightarrow> number \<Rightarrow> number" where
  "plus_number (Fin a) (Fin b) = Fin (a + b)"
| "plus_number _ _ = NaN"

fun minus_number :: "number \<Rightarrow> number \<Rightarrow> number" where
  "minus_number (Fin a) (Fin b) = Fin (a - b)"
| "minus_number _ _ = NaN"

fun times_number :: "number \<Rightarrow> number \<Rightarrow> number" where
  "times_number (Fin a) (Fin b) = Fin (a * b)"
| "times_number _ _ = NaN"

fun less_number :: "number \<Rightarrow> number \<Rightarrow> bool" where
  "less_number (Fin a) (Fin b) = (a < b)"
| "less_number _ _ = False"

fun less_eq_number :: "number \<Rightarrow> number \<Rightarrow> bool" where
  "less_eq_number (Fin a) (Fin b) = (a \<le> b)"
| "less_eq_number _ _ = False"

instance ..

end

text \<open>Addition is associative and commutative, and \<open>NaN\<close> absorbs.\<close>

lemma plus_number_assoc: "(x + y) + z = x + (y + z)" for x y z :: number
  by (cases x; cases y; cases z; simp)

lemma plus_number_commute: "x + y = y + x" for x y :: number
  by (cases x; cases y; simp)

lemma plus_number_zero: "0 + x = x" for x :: number
  by (cases x; simp add: zero_number_def)

instance number :: comm_monoid_add
  by standard (rule plus_number_assoc, rule plus_number_commute, rule plus_number_zero)

text \<open>\<open>Math.ceil(x / 4)\<close>.\<close>

fun ceil_div4 :: "number \<Rightarrow> number" where
  "ceil_div4 (Fin a) = Fin (of_int \<lceil>a / 4\<rceil>)"
| "ceil_div4 NaN = NaN"

text \<open>\<open>Number.MAX_SAFE_INTEGER\<close>.\<close>

definition MAX_SAFE_INTEGER :: number where
  "MAX_SAFE_INTEGER = Fin 9007199254740991"

text \<open>\<open>n % 1 !== 0\<close>: true of every non-integer and of \<open>NaN\<close>.\<close>

fun mod1_nonzero :: "number \<Rightarrow> bool" where
  "mod1_nonzero (Fin a) = (a \<noteq> of_int \<lfloor>a\<rfloor>)"
| "mod1_nonzero NaN = True"

text \<open>A number used as a condition: \<open>0\<close> and \<open>NaN\<close> are falsy.\<close>

definition truthy :: "number \<Rightarrow> bool" where
  "truthy x = (x \<noteq> NaN \<and> x \<noteq> Fin 0)"

text \<open>
  \<open>clamp(0, Infinity, v)\<close>: the lower bound where \<open>v\<close> is below it, and \<open>v\<close> itself
  otherwise (nothing is above the upper bound, and \<open>NaN\<close> passes both comparisons).
\<close>

definition clamp0 :: "number \<Rightarrow> number" where
  "clamp0 v = (if v < 0 then 0 else v)"

section \<open>Strings\<close>

text \<open>\<open>String.prototype.split\<close> with a one-character separator.\<close>

fun split :: "char \<Rightarrow> string \<Rightarrow> string list" where
  "split sep [] = [[]]"
| "split sep (c # cs) =
     (if c = sep then [] # split sep cs
      else (case split sep cs of
              [] \<Rightarrow> [[c]]
            | p # ps \<Rightarrow> (c # p) # ps))"

text \<open>
  \<open>parseInt(item)\<close> with no radix: leading white space is skipped, a sign is read, a
  \<open>0x\<close> prefix selects base 16, and the longest run of digits is converted; with no digit
  the result is \<open>NaN\<close>. Characters are bytes here, so of the white-space characters of
  JavaScript only the ones below 256 are recognised.
\<close>

definition isWhiteSpace :: "char \<Rightarrow> bool" where
  "isWhiteSpace c = (of_char c \<in> {9, 10, 11, 12, 13, 32, 160 :: nat})"

definition digitValue :: "char \<Rightarrow> nat option" where
  "digitValue c =
     (let n = (of_char c :: nat) in
      if 48 \<le> n \<and> n \<le> 57 then Some (n - 48)
      else if 97 \<le> n \<and> n \<le> 122 then Some (n - 87)
      else if 65 \<le> n \<and> n \<le> 90 then Some (n - 55)
      else None)"

definition isDigit :: "nat \<Rightarrow> char \<Rightarrow> bool" where
  "isDigit radix c = (case digitValue c of None \<Rightarrow> False | Some d \<Rightarrow> d < radix)"

definition digitsValue :: "nat \<Rightarrow> string \<Rightarrow> int" where
  "digitsValue radix ds =
     foldl (\<lambda>acc c. acc * int radix + int (the (digitValue c))) 0 ds"

definition parseInt :: "string \<Rightarrow> number" where
  "parseInt s =
     (let s1 = dropWhile isWhiteSpace s;
          (sign, s2) = (case s1 of
                          c # cs \<Rightarrow> if c = CHR ''-'' then (-1, cs)
                                    else if c = CHR ''+'' then (1, cs)
                                    else (1, s1)
                        | [] \<Rightarrow> (1, s1));
          (radix, s3) = (if take 2 s2 = ''0x'' \<or> take 2 s2 = ''0X''
                         then (16, drop 2 s2) else (10, s2));
          ds = takeWhile (isDigit radix) s3
      in if ds = [] then NaN else Fin (of_int (sign * digitsValue radix ds)))"

section \<open>The size estimator\<close>

text \<open>
  \<open>getByteCount\<close> throws a \<open>RangeError\<close> for a count out of range and a plain
  \<open>Error\<close>, whose message names the key, for a multisig key it cannot split.
\<close>

datatype error = RangeError | InvalidInput string

text \<open>
  The two tables of \<open>IO_TYPES\<close>, in weight units. A lookup of a key the table does not
  have is \<open>undefined\<close>; the only use of a lookup is as a factor, where \<open>undefined\<close> (and any
  member inherited from the object prototype) gives \<open>NaN\<close>.
\<close>

definition IO_TYPES_inputs :: "(string \<times> rat) list" where
  "IO_TYPES_inputs =
     [(''MULTISIG-P2SH'', 49 * 4),
      (''MULTISIG-P2WSH'', 6 + 41 * 4),
      (''MULTISIG-P2SH-P2WSH'', 6 + 76 * 4),
      (''P2PKH'', 147 * 4),
      (''P2WPKH'', 108 + 41 * 4),
      (''P2SH-P2WPKH'', 108 + 64 * 4)]"

definition IO_TYPES_outputs :: "(string \<times> rat) list" where
  "IO_TYPES_outputs =
     [(''P2SH'', 32 * 4),
      (''P2SH-P2WPKH'', 32 * 4),
      (''P2PKH'', 34 * 4),
      (''P2WPKH'', 31 * 4),
      (''P2WSH'', 43 * 4)]"

definition lookup :: "(string \<times> rat) list \<Rightarrow> string \<Rightarrow> number" where
  "lookup table key = (case map_of table key of None \<Rightarrow> NaN | Some w \<Rightarrow> Fin w)"

text \<open>
  \<open>checkUInt53\<close> throws or returns nothing; \<open>True\<close> means that it throws.
\<close>

definition checkUInt53 :: "number \<Rightarrow> bool" where
  "checkUInt53 n = (n < 0 \<or> n > MAX_SAFE_INTEGER \<or> mod1_nonzero n)"

definition varIntLength :: "number \<Rightarrow> error + number" where
  "varIntLength n =
     (if checkUInt53 n then Inl RangeError
      else Inr (if n < Fin 253 then Fin 1
                else if n \<le> Fin 65535 then Fin 3
                else if n \<le> Fin 4294967295 then Fin 5
                else Fin 9))"

text \<open>
  An element of an array read by index: \<open>undefined\<close>, hence \<open>NaN\<close>, past the end.
\<close>

definition at_index :: "number list \<Rightarrow> nat \<Rightarrow> number" where
  "at_index xs i = (if i < length xs then xs ! i else NaN)"

text \<open>The variables that the two loops of \<open>getByteCount\<close> update.\<close>

record counters =
  totalWeight :: number
  hasWitness :: bool
  inputCount :: number
  outputCount :: number

text \<open>
  An object used as a map from script type to count is the list of its entries in the
  order of \<open>Object.keys\<close>. The body of the loop over the inputs:
\<close>

definition input_step :: "counters \<Rightarrow> string \<times> number \<Rightarrow> error + counters" where
  "input_step st entry =
     (let key = fst entry; count = snd entry in
      if checkUInt53 count then Inl RangeError
      else if take 8 key = ''MULTISIG'' then
        (let keyParts = split CHR '':'' key in
         if length keyParts \<noteq> 2 then Inl (InvalidInput key)
         else
           (let newKey = keyParts ! 0;
                mAndN = map parseInt (split CHR ''-'' (keyParts ! 1));
                w1 = totalWeight st + lookup IO_TYPES_inputs newKey * count;
                multiplyer = (if newKey = ''MULTISIG-P2SH'' then Fin 4 else Fin 1);
                w2 = w1 + (Fin 73 * at_index mAndN 0 + Fin 34 * at_index mAndN 1)
                            * multiplyer * count
            in Inr (st\<lparr>totalWeight := w2,
                       inputCount := inputCount st + count,
                       hasWitness := (hasWitness st \<or> CHR ''W'' \<in> set key)\<rparr>)))
      else
        Inr (st\<lparr>totalWeight := totalWeight st + lookup IO_TYPES_inputs key * count,
                inputCount := inputCount st + count,
                hasWitness := (hasWitness st \<or> CHR ''W'' \<in> set key)\<rparr>))"

text \<open>The body of the loop over the outputs, which never looks at the shape of a key:\<close>

definition output_step :: "counters \<Rightarrow> string \<times> number \<Rightarrow> error + counters" where
  "output_step st entry =
     (let key = fst entry; count = snd entry in
      if checkUInt53 count then Inl RangeError
      else Inr (st\<lparr>totalWeight := totalWeight st + lookup IO_TYPES_outputs key * count,
                   outputCount := outputCount st + count\<rparr>))"

text \<open>\<open>forEach\<close> with a body that may throw: the first error ends the loop.\<close>

fun forEach :: "('s \<Rightarrow> 'a \<Rightarrow> error + 's) \<Rightarrow> 's \<Rightarrow> 'a list \<Rightarrow> error + 's" where
  "forEach body st [] = Inr st"
| "forEach body st (x # xs) =
     (case body st x of Inl e \<Rightarrow> Inl e | Inr st' \<Rightarrow> forEach body st' xs)"

text \<open>
  The weight \<open>getByteCount\<close> has accumulated when it reaches its last line, and the
  function itself.
\<close>

definition getWeight :: "(string \<times> number) list \<Rightarrow> (string \<times> number) list \<Rightarrow> error + number" where
  "getWeight ins outs =
     (case forEach input_step
             \<lparr>totalWeight = 0, hasWitness = False, inputCount = 0, outputCount = 0\<rparr> ins of
        Inl e \<Rightarrow> Inl e
      | Inr st1 \<Rightarrow>
     (case forEach output_step st1 outs of
        Inl e \<Rightarrow> Inl e
      | Inr st2 \<Rightarrow>
     (let w1 = (if hasWitness st2 then totalWeight st2 + Fin 2 else totalWeight st2);
          w2 = w1 + Fin 8 * Fin 4
      in case varIntLength (inputCount st2) of
           Inl e \<Rightarrow> Inl e
         | Inr li \<Rightarrow>
        (case varIntLength (outputCount st2) of
           Inl e \<Rightarrow> Inl e
         | Inr lo \<Rightarrow> Inr (w2 + li * Fin 4 + lo * Fin 4)))))"

definition getByteCount :: "(string \<times> number) list \<Rightarrow> (string \<times> number) list \<Rightarrow> error + number" where
  "getByteCount ins outs =
     (case getWeight ins outs of Inl e \<Rightarrow> Inl e | Inr w \<Rightarrow> Inr (ceil_div4 w))"

section \<open>Coins, selections and the functions of the coin module\<close>

text \<open>
  A coin, as far as this module reads it: its value, its address, whether it is a change
  output, and its script type. \<open>type\<close> is \<open>None\<close> for an object with no \<open>type\<close> method,
  such as the empty object \<open>{}\<close>, whose value is \<open>undefined\<close>. Payment targets are coins
  too.
\<close>

record coin =
  coin_value :: number
  address :: string
  change :: bool
  type :: "string option"

definition emptyObject :: coin where
  "emptyObject = \<lparr>coin_value = NaN, address = [], change = False, type = None\<rparr>"

record selection =
  fee :: number
  inputs :: "coin list"
  outputs :: "coin list"

text \<open>
  The file \<open>coin.js\<close>, the libraries and the runtime are not part of the sources at hand;
  what this module takes from them is a parameter of the model:
  \<^item> \<open>inputBytes\<close>, \<open>outputBytes\<close>, \<open>TX_OUTPUT_BASE\<close>, \<open>TX_OUTPUT_PUBKEYHASH\<close> and the
    method \<open>lte\<close> of the coin module;
  \<^item> \<open>typeOfAddress\<close>, the script type of a coin that \<open>Coin.fromJS\<close> builds for an address;
  \<^item> \<open>sort_by\<close>, the array sort of the runtime, called with a comparison that answers
    \<open>true\<close> or \<open>false\<close> where the runtime expects a sign, so that the order it produces
    is the runtime's own business;
  \<^item> \<open>shuffle\<close>, the Fisher-Yates shuffle of the library, given the stream of numbers
    its generator yields;
  \<^item> \<open>seedrandom\<close>, which makes a generator from a seed, and \<open>draw\<close>, one call of a
    generator: the number drawn and the generator's next state.
\<close>

record 'g env =
  inputBytes :: "coin \<Rightarrow> number"
  outputBytes :: "coin \<Rightarrow> number"
  TX_OUTPUT_BASE :: number
  TX_OUTPUT_PUBKEYHASH :: number
  lte :: "coin \<Rightarrow> coin \<Rightarrow> bool"
  typeOfAddress :: "string \<Rightarrow> string"
  sort_by :: "(coin \<Rightarrow> coin \<Rightarrow> bool) \<Rightarrow> coin list \<Rightarrow> coin list"
  shuffle :: "coin list \<Rightarrow> (nat \<Rightarrow> number) \<Rightarrow> coin list"
  seedrandom :: "string \<Rightarrow> 'g"
  draw :: "'g \<Rightarrow> number \<times> 'g"

text \<open>
  Modelled from the spec: \<open>Coin.fromJS\<close> is missing. The spec has the engine construct new
  target instances for change outputs from a value, an address and the change flag.
\<close>

definition fromJS :: "'g env \<Rightarrow> number \<Rightarrow> string \<Rightarrow> bool \<Rightarrow> coin" where
  "fromJS E v a c = \<lparr>coin_value = v, address = a, change = c, type = Some (typeOfAddress E a)\<rparr>"

text \<open>
  Modelled from the spec: the monoid of coins (\<open>Coin.empty\<close> and \<open>concat\<close>) is missing. The
  spec reads \<open>List(coins).fold(Coin.empty).value\<close> as the sum of the values.
\<close>

definition total_value :: "coin list \<Rightarrow> number" where
  "total_value coins = sum_list (map coin_value coins)"

text \<open>
  Modelled from the spec: \<open>Coin.effectiveValue\<close> is missing. The spec gives
  \<open>effectiveValue(feeRate, coin) = coin.value - inputBytes(coin) * feeRate\<close>.
\<close>

definition effectiveValue :: "'g env \<Rightarrow> number \<Rightarrow> coin \<Rightarrow> number" where
  "effectiveValue E feeRate coin = coin_value coin - inputBytes E coin * feeRate"

definition dustThreshold :: "'g env \<Rightarrow> number \<Rightarrow> number" where
  "dustThreshold E feeRate = (inputBytes E emptyObject + outputBytes E emptyObject) * feeRate"

text \<open>
  \<open>transactionBytes\<close> counts the coins of each script type, a coin without a \<open>type\<close>
  method counting as P2PKH, and asks \<open>getByteCount\<close>. The object it builds is kept as the
  list of its own entries in the order the keys were first assigned (JavaScript lists the
  keys that are array indices first, which changes no result here: such a key never
  raises in \<open>getByteCount\<close>).

  The object starts as \<open>{}\<close>, which already answers to the names it inherits from
  \<open>Object.prototype\<close>. For the name of an inherited method the test \<open>acc[type]\<close> finds
  a function, which is truthy, and \<open>acc[type] += 1\<close> stores the text of the function with
  \<open>1\<close> appended as an own property; each further coin of that type appends another
  \<open>1\<close>. Such a count is a string that is not numeric: \<open>getByteCount\<close> only compares it
  and takes \<open>n % 1\<close>, where it coerces to \<open>NaN\<close>, so it is kept as \<open>NaN\<close>. For
  \<open>__proto__\<close> the test finds the prototype, and the assignment reaches the inherited
  setter, which ignores a string: the coin is not counted.
\<close>

definition Object_prototype_methods :: "string list" where
  "Object_prototype_methods =
     [''constructor'', ''hasOwnProperty'', ''isPrototypeOf'', ''propertyIsEnumerable'',
      ''toLocaleString'', ''toString'', ''valueOf'', ''__defineGetter__'',
      ''__defineSetter__'', ''__lookupGetter__'', ''__lookupSetter__'']"

definition coinTypeReducer :: "(string \<times> number) list \<Rightarrow> coin \<Rightarrow> (string \<times> number) list" where
  "coinTypeReducer acc coin =
     (let t = (case type coin of Some t \<Rightarrow> t | None \<Rightarrow> ''P2PKH'') in
      if t = ''__proto__'' then acc
      else if t \<in> set Object_prototype_methods then AList.update t NaN acc
      else
        (case map_of acc t of
           Some n \<Rightarrow> if truthy n then AList.update t (n + Fin 1) acc else AList.update t (Fin 1) acc
         | None \<Rightarrow> AList.update t (Fin 1) acc))"

definition transactionBytes :: "coin list \<Rightarrow> coin list \<Rightarrow> error + number" where
  "transactionBytes ins outs =
     (let inputTypeCollection = foldl coinTypeReducer [] ins;
          outputTypeCollection = foldl coinTypeReducer [] outs
      in getByteCount inputTypeCollection outputTypeCollection)"

definition changeBytes :: "'g env \<Rightarrow> number" where
  "changeBytes E = TX_OUTPUT_BASE E + TX_OUTPUT_PUBKEYHASH E"

text \<open>
  \<open>effectiveBalance(feePerByte, inputs, outputs).value\<close>; \<open>selectAll\<close> leaves the outputs to
  their default, the list of one empty object.
\<close>

definition effectiveBalance :: "number \<Rightarrow> coin list \<Rightarrow> coin list \<Rightarrow> error + number" where
  "effectiveBalance feePerByte ins outs =
     (case transactionBytes ins outs of
        Inl e \<Rightarrow> Inl e
      | Inr bytes \<Rightarrow> Inr (clamp0 (total_value ins - bytes * feePerByte)))"

section \<open>The target-matching core\<close>

text \<open>
  The state of the accumulation is the triple of the accumulated value, the accumulated
  fee and the coins left. \<open>findTarget_step\<close> is \<open>_findTarget\<close>: \<open>None\<close> where it returns
  \<open>false\<close>.
\<close>

type_synonym seed = "number \<times> number \<times> coin list"

definition findTarget_step ::
  "'g env \<Rightarrow> number \<Rightarrow> number \<Rightarrow> seed \<Rightarrow> ((number \<times> number \<times> coin) \<times> seed) option" where
  "findTarget_step E target feePerByte seed =
     (case seed of (acc, fee0, coins) \<Rightarrow>
        (case coins of
           [] \<Rightarrow> None
         | newCoin # restCoins \<Rightarrow>
             if acc > target + fee0 then None
             else
               (let partialFee = fee0 + inputBytes E newCoin * feePerByte;
                    nextAcc = acc + coin_value newCoin
                in if acc > target + partialFee then None
                   else Some ((nextAcc, partialFee, newCoin), (nextAcc, partialFee, restCoins)))))"

text \<open>
  \<open>unfold\<close> applied to \<open>_findTarget\<close>: each step drops a coin, so the loop ends.
\<close>

function unfold_findTarget ::
  "'g env \<Rightarrow> number \<Rightarrow> number \<Rightarrow> seed \<Rightarrow> (number \<times> number \<times> coin) list" where
  "unfold_findTarget E target feePerByte seed =
     (case findTarget_step E target feePerByte seed of
        None \<Rightarrow> []
      | Some (x, seed') \<Rightarrow> x # unfold_findTarget E target feePerByte seed')"
  by pat_completeness auto
termination
  by (relation "measure (\<lambda>(E, target, feePerByte, seed). length (snd (snd seed)))")
     (auto simp: findTarget_step_def Let_def split: prod.splits list.splits if_splits)

declare unfold_findTarget.simps [simp del]

text \<open>
  \<open>ft\<close>, which \<open>findTarget\<close> memoises. The memoised functions are modelled by the
  functions they wrap.
\<close>

definition ft :: "'g env \<Rightarrow> coin list \<Rightarrow> number \<Rightarrow> coin list \<Rightarrow> string \<Rightarrow> error + selection" where
  "ft E targets feePerByte coins changeAddress =
     (let target = total_value targets in
      case transactionBytes [] targets of
        Inl e \<Rightarrow> Inl e
      | Inr bytes \<Rightarrow>
     (let partialFee = bytes * feePerByte;
          effectiveCoins = filter (\<lambda>c. effectiveValue E feePerByte c > 0) coins;
          selection = unfold_findTarget E target feePerByte (0, partialFee, effectiveCoins)
      in if selection = [] then Inr \<lparr>fee = 0, inputs = [], outputs = []\<rparr>
         else
           (let maxBalance = fst (last selection);
                fee1 = fst (snd (last selection));
                selectedCoins = map (\<lambda>e. snd (snd e)) selection
            in if maxBalance < target + fee1
               then Inr \<lparr>fee = fee1, inputs = [], outputs = targets\<rparr>
               else
                 (let extra = maxBalance - target - fee1;
                      feeChange = changeBytes E * feePerByte;
                      extraWithChangeFee = extra - feeChange
                  in if extraWithChangeFee \<ge> dustThreshold E feePerByte
                     then Inr \<lparr>fee = fee1 + feeChange, inputs = selectedCoins,
                               outputs = targets @ [fromJS E extraWithChangeFee changeAddress True]\<rparr>
                     else Inr \<lparr>fee = fee1 + extra, inputs = selectedCoins, outputs = targets\<rparr>))))"

section \<open>The selection strategies\<close>

definition selectAll :: "'g env \<Rightarrow> number \<Rightarrow> coin list \<Rightarrow> string \<Rightarrow> error + selection" where
  "selectAll E feePerByte coins outAddress =
     (let effectiveCoins = filter (\<lambda>c. effectiveValue E feePerByte c > 0) coins in
      case effectiveBalance feePerByte effectiveCoins [emptyObject] of
        Inl e \<Rightarrow> Inl e
      | Inr effBalance \<Rightarrow>
          (let Balance = total_value effectiveCoins;
               fee1 = Balance - effBalance
           in Inr \<lparr>fee = fee1, inputs = effectiveCoins,
                    outputs = [fromJS E effBalance outAddress False]\<rparr>))"

text \<open>
  The numbers a generator yields from a given state on, and \<open>Math.random\<close> as a stream
  of numbers the caller cannot predict: \<open>world\<close>. A seed is a string or absent.
\<close>

definition draws :: "'g env \<Rightarrow> 'g \<Rightarrow> nat \<Rightarrow> number" where
  "draws E g n = fst (draw E (((\<lambda>s. snd (draw E s)) ^^ n) g))"

definition singleRandomDraw ::
  "'g env \<Rightarrow> coin list \<Rightarrow> number \<Rightarrow> coin list \<Rightarrow> string \<Rightarrow> string option \<Rightarrow> (nat \<Rightarrow> number)
   \<Rightarrow> error + selection" where
  "singleRandomDraw E targets feePerByte coins changeAddress seed world =
     (let rng = map_option (seedrandom E) seed in
      ft E targets feePerByte
         (shuffle E coins (case rng of Some g \<Rightarrow> draws E g | None \<Rightarrow> world))
         changeAddress)"



section \<open>Branch and bound\<close>

text \<open>
  The search updates the counter \<open>bnbTries\<close> and consumes random numbers: the state it
  threads is the counter, the seeded generator if there is one, and what is left of the
  stream of \<open>Math.random\<close>.
\<close>

record 'g search =
  bnbTries :: int
  rng :: "'g option"
  world :: "nat \<Rightarrow> number"

definition Math_random :: "'g search \<Rightarrow> number \<times> 'g search" where
  "Math_random st = (world st 0, st\<lparr>world := (\<lambda>n. world st (Suc n))\<rparr>)"

text \<open>
  The condition \<open>(rng && rng()) || Math.random() > 0.5\<close>: with a generator, the number
  it draws decides by its truthiness, and \<open>Math.random\<close> is asked only when that number
  is falsy; without one, \<open>Math.random() > 0.5\<close> decides.
\<close>

definition includeFirst :: "'g env \<Rightarrow> 'g search \<Rightarrow> bool \<times> 'g search" where
  "includeFirst E st =
     (case rng st of
        Some g \<Rightarrow>
          (case draw E g of (x, g') \<Rightarrow>
             if truthy x then (True, st\<lparr>rng := Some g'\<rparr>)
             else (case Math_random (st\<lparr>rng := Some g'\<rparr>) of (r, st') \<Rightarrow> (r > Fin (1 / 2), st')))
      | None \<Rightarrow> (case Math_random st of (r, st') \<Rightarrow> (r > Fin (1 / 2), st')))"

text \<open>\<open>_branchAndBound\<close>: the selection it returns and the state it leaves.\<close>

function branchAndBound_node ::
  "'g env \<Rightarrow> coin list \<Rightarrow> number \<Rightarrow> number \<Rightarrow> number \<Rightarrow> nat \<Rightarrow> coin list \<Rightarrow> number \<Rightarrow> 'g search
   \<Rightarrow> coin list \<times> 'g search" where
  "branchAndBound_node E sortedCoins feePerByte targetForMatch matchRange depth currentSelection effValue st0 =
     (let st = st0\<lparr>bnbTries := bnbTries st0 - 1\<rparr> in
      if effValue > targetForMatch + matchRange then ([], st)
      else if effValue \<ge> targetForMatch then (currentSelection, st)
      else if bnbTries st < 1 then ([], st)
      else if depth \<ge> length sortedCoins then ([], st)
      else
        (case includeFirst E st of
           (True, st1) \<Rightarrow>
             (case branchAndBound_node E sortedCoins feePerByte targetForMatch matchRange (depth + 1)
                     (currentSelection @ [sortedCoins ! depth])
                     (effValue + effectiveValue E feePerByte (sortedCoins ! depth)) st1 of
                (include, st2) \<Rightarrow>
                  if include \<noteq> [] then (include, st2)
                  else branchAndBound_node E sortedCoins feePerByte targetForMatch matchRange (depth + 1)
                         currentSelection effValue st2)
         | (False, st1) \<Rightarrow>
             (case branchAndBound_node E sortedCoins feePerByte targetForMatch matchRange (depth + 1)
                     currentSelection effValue st1 of
                (exclude, st2) \<Rightarrow>
                  if exclude \<noteq> [] then (exclude, st2)
                  else branchAndBound_node E sortedCoins feePerByte targetForMatch matchRange (depth + 1)
                         (currentSelection @ [sortedCoins ! depth])
                         (effValue + effectiveValue E feePerByte (sortedCoins ! depth)) st2)))"
  by pat_completeness auto
termination
  by (relation "measure (\<lambda>(E, sortedCoins, feePerByte, targetForMatch, matchRange, depth, rest).
                   length sortedCoins - depth)") auto

declare branchAndBound_node.simps [simp del]

definition bnb ::
  "'g env \<Rightarrow> coin list \<Rightarrow> number \<Rightarrow> coin list \<Rightarrow> string \<Rightarrow> string option \<Rightarrow> (nat \<Rightarrow> number)
   \<Rightarrow> error + selection" where
  "bnb E targets feePerByte coins changeAddress seed w =
     (let rng0 = map_option (seedrandom E) seed;
          sortedCoins = filter (\<lambda>c. effectiveValue E feePerByte c > 0)
                          (sort_by E (\<lambda>a b. lte E a b) coins);
          target = total_value targets
      in case transactionBytes [] targets of
           Inl e \<Rightarrow> Inl e
         | Inr bytes \<Rightarrow>
        (let targetForMatch = target + bytes * feePerByte;
             matchRange = dustThreshold E feePerByte
         in case branchAndBound_node E sortedCoins feePerByte targetForMatch matchRange 0 [] 0
                   \<lparr>bnbTries = 1000000, rng = rng0, world = w\<rparr> of
              (bnbSelection, st) \<Rightarrow>
                if bnbSelection = []
                then singleRandomDraw E targets feePerByte sortedCoins changeAddress seed (world st)
                else Inr \<lparr>fee = total_value bnbSelection - target, inputs = bnbSelection,
                         outputs = targets\<rparr>))"

section \<open>Notions the properties are stated with\<close>

text \<open>The weight one entry of the inputs, and of the outputs, adds.\<close>

definition input_weight :: "string \<times> number \<Rightarrow> number" where
  "input_weight entry =
     (let key = fst entry; count = snd entry in
      if take 8 key = ''MULTISIG'' then
        (let keyParts = split CHR '':'' key;
             newKey = keyParts ! 0;
             mAndN = map parseInt (split CHR ''-'' (keyParts ! 1));
             multiplyer = (if newKey = ''MULTISIG-P2SH'' then Fin 4 else Fin 1)
         in lookup IO_TYPES_inputs newKey * count
            + (Fin 73 * at_index mAndN 0 + Fin 34 * at_index mAndN 1) * multiplyer * count)
      else lookup IO_TYPES_inputs key * count)"

definition output_weight :: "string \<times> number \<Rightarrow> number" where
  "output_weight entry = lookup IO_TYPES_outputs (fst entry) * snd entry"

text \<open>
  The keys the loop over the inputs refuses, the keys that carry the witness marker, and
  the condition under which \<open>getByteCount\<close> raises.
\<close>

definition bad_shape :: "string \<Rightarrow> bool" where
  "bad_shape key = (take 8 key = ''MULTISIG'' \<and> length (split CHR '':'' key) \<noteq> 2)"

definition witness_key :: "string \<Rightarrow> bool" where
  "witness_key key = (CHR ''W'' \<in> set key)"

definition raises :: "(string \<times> number) list \<Rightarrow> (string \<times> number) list \<Rightarrow> bool" where
  "raises ins outs =
     ((\<exists>e \<in> set ins. checkUInt53 (snd e) \<or> bad_shape (fst e)) \<or>
      (\<exists>e \<in> set outs. checkUInt53 (snd e)) \<or>
      checkUInt53 (sum_list (map snd ins)) \<or>
      checkUInt53 (sum_list (map snd outs)))"

text \<open>The weight without the witness marker and flag.\<close>

definition varIntBytes :: "number \<Rightarrow> number" where
  "varIntBytes n = (case varIntLength n of Inl e \<Rightarrow> NaN | Inr l \<Rightarrow> l)"

definition plain_weight :: "(string \<times> number) list \<Rightarrow> (string \<times> number) list \<Rightarrow> number" where
  "plain_weight ins outs =
     sum_list (map input_weight ins) + sum_list (map output_weight outs)
     + Fin 8 * Fin 4
     + varIntBytes (sum_list (map snd ins)) * Fin 4
     + varIntBytes (sum_list (map snd outs)) * Fin 4"

text \<open>
  The steps of the accumulation that \<open>ft\<close> runs, given the size of the transaction without
  inputs, and the total effective value of a list of coins.
\<close>

definition selection_steps ::
  "'g env \<Rightarrow> coin list \<Rightarrow> number \<Rightarrow> coin list \<Rightarrow> number \<Rightarrow> (number \<times> number \<times> coin) list" where
  "selection_steps E targets f coins bytes =
     unfold_findTarget E (total_value targets) f
       (0, bytes * f, filter (\<lambda>c. effectiveValue E f c > 0) coins)"

definition effective_sum :: "'g env \<Rightarrow> number \<Rightarrow> coin list \<Rightarrow> number" where
  "effective_sum E f cs = sum_list (map (effectiveValue E f) cs)"

text \<open>
  The script type \<open>transactionBytes\<close> counts a coin under, the coins it counts (all but
  the ones whose type is \<open>__proto__\<close>), and what the counts it hands to \<open>getByteCount\<close>
  are when no type is the name of an inherited method: one entry for each type, each a
  positive whole number, adding up to the number of coins counted.
\<close>

definition scriptType :: "coin \<Rightarrow> string" where
  "scriptType coin = (case type coin of Some t \<Rightarrow> t | None \<Rightarrow> ''P2PKH'')"

definition counted_coins :: "coin list \<Rightarrow> coin list" where
  "counted_coins cs = filter (\<lambda>c. scriptType c \<noteq> ''__proto__'') cs"

definition counted :: "(string \<times> number) list \<Rightarrow> nat \<Rightarrow> bool" where
  "counted acc m =
     (distinct (map fst acc)
      \<and> (\<forall>e \<in> set acc. \<exists>k. 0 < k \<and> k \<le> m \<and> snd e = Fin (of_nat k))
      \<and> sum_list (map snd acc) = Fin (of_nat m))"

section \<open>An example platform\<close>

text \<open>
  A concrete environment to evaluate the functions in: an insertion sort that moves an
  element before the ones the comparison puts after it, the Fisher-Yates shuffle, a
  small congruential generator whose draws are never zero, coins of one script type and
  the byte sizes of a P2PKH input and output.
\<close>

fun insert_before :: "(coin \<Rightarrow> coin \<Rightarrow> bool) \<Rightarrow> coin \<Rightarrow> coin list \<Rightarrow> coin list" where
  "insert_before cmp e [] = [e]"
| "insert_before cmp e (t # ts) = (if cmp t e then t # insert_before cmp e ts else e # t # ts)"

definition insertion_sort :: "(coin \<Rightarrow> coin \<Rightarrow> bool) \<Rightarrow> coin list \<Rightarrow> coin list" where
  "insertion_sort cmp xs = rev (foldl (\<lambda>acc e. insert_before cmp e acc) [] xs)"

definition swap :: "nat \<Rightarrow> nat \<Rightarrow> 'a list \<Rightarrow> 'a list" where
  "swap i j xs = (if i < length xs \<and> j < length xs then xs[i := xs ! j, j := xs ! i] else xs)"

fun floor_index :: "number \<Rightarrow> nat \<Rightarrow> nat" where
  "floor_index (Fin r) n = nat \<lfloor>r * of_nat n\<rfloor>"
| "floor_index NaN n = 0"

fun fisher_yates_loop :: "nat \<Rightarrow> nat \<Rightarrow> (nat \<Rightarrow> number) \<Rightarrow> coin list \<Rightarrow> coin list" where
  "fisher_yates_loop 0 k rnd xs = xs"
| "fisher_yates_loop (Suc i) k rnd xs =
     fisher_yates_loop i (Suc k) rnd (swap (Suc i) (floor_index (rnd k) (Suc (Suc i))) xs)"

definition fisher_yates :: "coin list \<Rightarrow> (nat \<Rightarrow> number) \<Rightarrow> coin list" where
  "fisher_yates xs rnd = fisher_yates_loop (length xs - 1) 0 rnd xs"

definition example_env :: "nat env" where
  "example_env =
     \<lparr>inputBytes = (\<lambda>c. Fin 147), outputBytes = (\<lambda>c. Fin 34),
      TX_OUTPUT_BASE = Fin 9, TX_OUTPUT_PUBKEYHASH = Fin 25,
      lte = (\<lambda>a b. coin_value a \<le> coin_value b),
      typeOfAddress = (\<lambda>a. ''P2PKH''),
      sort_by = insertion_sort, shuffle = fisher_yates,
      seedrandom = length,
      draw = (\<lambda>g. (Fin (of_nat (g mod 9 + 1) / 10), 7 * g + 3))\<rparr>"

definition p2pkh_coin :: "rat \<Rightarrow> coin" where
  "p2pkh_coin v = \<lparr>coin_value = Fin v, address = ''a'', change = False, type = Some ''P2PKH''\<rparr>"

section \<open>Lemmas on numbers\<close>

lemma NaN_plus [simp]: "NaN + x = NaN" "x + NaN = NaN"
  by (cases x; simp)+

lemma NaN_times [simp]: "NaN * x = NaN" "x * NaN = NaN"
  by (cases x; simp)+

lemma NaN_minus [simp]: "NaN - x = NaN" "x - NaN = NaN"
  by (cases x; simp)+

lemma zero_plus_number [simp]: "(0::number) + x = x" "x + (0::number) = x"
  by simp_all

lemma sum_list_NaN: "NaN \<in> set xs \<Longrightarrow> sum_list xs = NaN"
  by (induction xs) auto




lemma number_le_not_less: "a \<le> b \<Longrightarrow> \<not> b < a" for a b :: number
  by (cases a; cases b; simp)

lemma number_upper:
  fixes t m e :: number
  assumes "t \<le> e" and "\<not> t + m < e" and "m \<noteq> NaN"
  shows "e \<le> t + m"
  using assms by (cases t; cases m; cases e; simp)

lemma clamp0_nonpos: "0 \<le> f \<Longrightarrow> clamp0 (0 - Fin 44 * f) = 0"
  by (cases f) (auto simp: clamp0_def zero_number_def)

section \<open>Lemmas on the size estimator\<close>

lemma input_step_Inr:
  "input_step st e = Inr st' \<longleftrightarrow>
     \<not> checkUInt53 (snd e) \<and> \<not> bad_shape (fst e) \<and>
     st' = st\<lparr>totalWeight := totalWeight st + input_weight e,
              inputCount := inputCount st + snd e,
              hasWitness := (hasWitness st \<or> witness_key (fst e))\<rparr>"
  by (auto simp: input_step_def input_weight_def bad_shape_def witness_key_def Let_def add.assoc)

lemma output_step_Inr:
  "output_step st e = Inr st' \<longleftrightarrow>
     \<not> checkUInt53 (snd e) \<and>
     st' = st\<lparr>totalWeight := totalWeight st + output_weight e,
              outputCount := outputCount st + snd e\<rparr>"
  by (auto simp: output_step_def output_weight_def Let_def)

lemma forEach_input_Inr:
  "forEach input_step st ins = Inr st' \<longleftrightarrow>
     (\<forall>e \<in> set ins. \<not> checkUInt53 (snd e) \<and> \<not> bad_shape (fst e)) \<and>
     st' = st\<lparr>totalWeight := totalWeight st + sum_list (map input_weight ins),
              inputCount := inputCount st + sum_list (map snd ins),
              hasWitness := (hasWitness st \<or> (\<exists>e \<in> set ins. witness_key (fst e)))\<rparr>"
proof (induction ins arbitrary: st)
  case Nil
  then show ?case by auto
next
  case (Cons e ins)
  show ?case
  proof (cases "input_step st e")
    case (Inl err)
    then have "\<not> (\<not> checkUInt53 (snd e) \<and> \<not> bad_shape (fst e))"
      using input_step_Inr[of st e] by auto
    with Inl show ?thesis by auto
  next
    case (Inr st1)
    then show ?thesis
      using Cons.IH[of st1] input_step_Inr[of st e st1]
      by (auto simp: add.assoc)
  qed
qed

lemma forEach_output_Inr:
  "forEach output_step st outs = Inr st' \<longleftrightarrow>
     (\<forall>e \<in> set outs. \<not> checkUInt53 (snd e)) \<and>
     st' = st\<lparr>totalWeight := totalWeight st + sum_list (map output_weight outs),
              outputCount := outputCount st + sum_list (map snd outs)\<rparr>"
proof (induction outs arbitrary: st)
  case Nil
  then show ?case by auto
next
  case (Cons e outs)
  show ?case
  proof (cases "output_step st e")
    case (Inl err)
    then have "checkUInt53 (snd e)"
      using output_step_Inr[of st e] by auto
    with Inl show ?thesis by auto
  next
    case (Inr st1)
    then show ?thesis
      using Cons.IH[of st1] output_step_Inr[of st e st1]
      by (auto simp: add.assoc)
  qed
qed

lemma getWeight_cases:
  "getWeight ins outs =
     (if raises ins outs then getWeight ins outs
      else Inr ((if \<exists>e \<in> set ins. witness_key (fst e)
                 then sum_list (map input_weight ins) + sum_list (map output_weight outs) + Fin 2
                 else sum_list (map input_weight ins) + sum_list (map output_weight outs))
                + Fin 8 * Fin 4
                + varIntBytes (sum_list (map snd ins)) * Fin 4
                + varIntBytes (sum_list (map snd outs)) * Fin 4))"
proof (cases "raises ins outs")
  case True
  then show ?thesis by simp
next
  case False
  let ?st0 = "\<lparr>totalWeight = 0, hasWitness = False, inputCount = 0, outputCount = 0\<rparr>"
  from False obtain st1 where 1: "forEach input_step ?st0 ins = Inr st1"
    using forEach_input_Inr[of ?st0 ins] by (auto simp: raises_def)
  from False obtain st2 where 2: "forEach output_step st1 outs = Inr st2"
    using forEach_output_Inr[of st1 outs] by (auto simp: raises_def)
  from False have 3: "\<not> checkUInt53 (sum_list (map snd ins))" "\<not> checkUInt53 (sum_list (map snd outs))"
    by (auto simp: raises_def)
  have st1: "st1 = \<lparr>totalWeight = sum_list (map input_weight ins),
                    hasWitness = (\<exists>e \<in> set ins. witness_key (fst e)),
                    inputCount = sum_list (map snd ins), outputCount = 0\<rparr>"
    using 1 forEach_input_Inr[of ?st0 ins st1] by simp
  have st2: "st2 = \<lparr>totalWeight = sum_list (map input_weight ins) + sum_list (map output_weight outs),
                    hasWitness = (\<exists>e \<in> set ins. witness_key (fst e)),
                    inputCount = sum_list (map snd ins), outputCount = sum_list (map snd outs)\<rparr>"
    using 2 forEach_output_Inr[of st1 outs st2] st1 by simp
  show ?thesis
    using False 1 2 3 unfolding getWeight_def st2
    by (simp add: varIntLength_def varIntBytes_def Let_def)
qed

lemma getWeight_raises: "isl (getWeight ins outs) \<longleftrightarrow> raises ins outs"
proof
  assume "raises ins outs"
  let ?st0 = "\<lparr>totalWeight = 0, hasWitness = False, inputCount = 0, outputCount = 0\<rparr>"
  show "isl (getWeight ins outs)"
  proof (cases "forEach input_step ?st0 ins")
    case (Inl e) then show ?thesis by (simp add: getWeight_def)
  next
    case (Inr st1)
    note 1 = this
    show ?thesis
    proof (cases "forEach output_step st1 outs")
      case (Inl e) then show ?thesis using 1 by (simp add: getWeight_def)
    next
      case (Inr st2)
      have a: "\<forall>e \<in> set ins. \<not> checkUInt53 (snd e) \<and> \<not> bad_shape (fst e)"
        and st1: "inputCount st1 = sum_list (map snd ins)" "outputCount st1 = 0"
        using 1 forEach_input_Inr[of ?st0 ins st1] by auto
      have b: "\<forall>e \<in> set outs. \<not> checkUInt53 (snd e)"
        and st2: "inputCount st2 = sum_list (map snd ins)" "outputCount st2 = sum_list (map snd outs)"
        using Inr forEach_output_Inr[of st1 outs st2] st1 by auto
      from \<open>raises ins outs\<close> a b
      have "checkUInt53 (inputCount st2) \<or> checkUInt53 (outputCount st2)"
        unfolding raises_def st2 by blast
      then show ?thesis using 1 Inr
        by (auto simp: getWeight_def varIntLength_def Let_def)
    qed
  qed
next
  assume "isl (getWeight ins outs)"
  then show "raises ins outs"
    using getWeight_cases[of ins outs] by (auto split: if_splits)
qed

lemma getByteCount_raises: "isl (getByteCount ins outs) \<longleftrightarrow> raises ins outs"
  using getWeight_raises[of ins outs]
  by (cases "getWeight ins outs") (simp_all add: getByteCount_def)

lemma forEach_input_InvalidInput:
  "forEach input_step st ins = Inl (InvalidInput k) \<Longrightarrow> \<exists>e \<in> set ins. fst e = k \<and> bad_shape k"
proof (induction ins arbitrary: st)
  case Nil
  then show ?case by simp
next
  case (Cons e ins)
  show ?case
  proof (cases "input_step st e")
    case (Inl err)
    with Cons.prems have "input_step st e = Inl (InvalidInput k)" by simp
    then have "fst e = k \<and> bad_shape k"
      by (auto simp: input_step_def bad_shape_def Let_def split: if_splits)
    then show ?thesis by auto
  next
    case (Inr st1)
    with Cons show ?thesis by auto
  qed
qed

lemma forEach_output_InvalidInput:
  "forEach output_step st outs \<noteq> Inl (InvalidInput k)"
proof (induction outs arbitrary: st)
  case Nil
  then show ?case by simp
next
  case (Cons e outs)
  then show ?case
    by (cases "output_step st e") (auto simp: output_step_def Let_def split: if_splits)
qed

lemma getByteCount_InvalidInput:
  assumes "getByteCount ins outs = Inl (InvalidInput k)"
  shows "\<exists>e \<in> set ins. fst e = k \<and> bad_shape k"
proof -
  let ?st0 = "\<lparr>totalWeight = 0, hasWitness = False, inputCount = 0, outputCount = 0\<rparr>"
  from assms have w: "getWeight ins outs = Inl (InvalidInput k)"
    by (auto simp: getByteCount_def split: sum.splits)
  show ?thesis
  proof (cases "forEach input_step ?st0 ins")
    case (Inl err)
    with w have "forEach input_step ?st0 ins = Inl (InvalidInput k)"
      by (simp add: getWeight_def)
    then show ?thesis by (rule forEach_input_InvalidInput)
  next
    case (Inr st1)
    with w forEach_output_InvalidInput[of st1 outs k] show ?thesis
      by (auto simp: getWeight_def varIntLength_def Let_def split: sum.splits if_splits)
  qed
qed

lemma input_weight_unknown:
  "take 8 (fst e) \<noteq> ''MULTISIG'' \<Longrightarrow> map_of IO_TYPES_inputs (fst e) = None \<Longrightarrow> input_weight e = NaN"
  by (simp add: input_weight_def lookup_def)

lemma output_weight_unknown:
  "map_of IO_TYPES_outputs (fst e) = None \<Longrightarrow> output_weight e = NaN"
  by (simp add: output_weight_def lookup_def)

lemma getByteCount_not_raises:
  "\<not> raises ins outs \<Longrightarrow>
   getByteCount ins outs =
     Inr (ceil_div4 (plain_weight ins outs
                     + (if \<exists>e \<in> set ins. witness_key (fst e) then Fin 2 else 0)))"
  using getWeight_cases[of ins outs]
  by (simp add: getByteCount_def plain_weight_def ac_simps)

lemma plain_weight_NaN_in:
  "e \<in> set ins \<Longrightarrow> input_weight e = NaN \<Longrightarrow> plain_weight ins outs = NaN"
proof -
  assume "e \<in> set ins" "input_weight e = NaN"
  then have "NaN \<in> set (map input_weight ins)" by force
  then have "sum_list (map input_weight ins) = NaN" by (rule sum_list_NaN)
  then show ?thesis by (simp add: plain_weight_def)
qed

lemma plain_weight_NaN_out:
  "e \<in> set outs \<Longrightarrow> output_weight e = NaN \<Longrightarrow> plain_weight ins outs = NaN"
proof -
  assume "e \<in> set outs" "output_weight e = NaN"
  then have "NaN \<in> set (map output_weight outs)" by force
  then have "sum_list (map output_weight outs) = NaN" by (rule sum_list_NaN)
  then show ?thesis by (simp add: plain_weight_def)
qed

lemma transactionBytes_empty: "transactionBytes [] [emptyObject] = Inr (Fin 44)"
  by code_simp

lemma update_absent_sum:
  "t \<notin> fst ` set acc \<Longrightarrow>
   sum_list (map snd (AList.update t v acc)) = sum_list (map snd acc) + v"
  by (induction acc) (auto simp: add.assoc)

lemma update_present_sum:
  "distinct (map fst acc) \<Longrightarrow> map_of acc t = Some (Fin a) \<Longrightarrow>
   sum_list (map snd (AList.update t (Fin a + Fin 1) acc)) = sum_list (map snd acc) + Fin 1"
proof (induction acc)
  case Nil
  then show ?case by simp
next
  case (Cons e acc)
  show ?case
  proof (cases "fst e = t")
    case True
    with Cons.prems have "snd e = Fin a" by (cases e) auto
    with True show ?thesis by (cases e) (simp add: ac_simps del: plus_number.simps)
  next
    case False
    with Cons show ?thesis by (cases e) (auto simp: ac_simps simp del: plus_number.simps)
  qed
qed

lemma update_set:
  "set (AList.update t v acc) \<subseteq> insert (t, v) (set acc)"
  by (induction acc) auto

lemma update_keeps:
  "(k, v) \<in> set acc \<Longrightarrow> k \<noteq> k' \<Longrightarrow> (k, v) \<in> set (AList.update k' v' acc)"
  by (induction acc) auto

lemma update_member: "(k, v) \<in> set (AList.update k v acc)"
  by (induction acc) auto

lemma proto_not_method: "''__proto__'' \<notin> set Object_prototype_methods"
  by (simp add: Object_prototype_methods_def)

lemma coinTypeReducer_cases:
  "coinTypeReducer acc c =
     (if scriptType c = ''__proto__'' then acc
      else if scriptType c \<in> set Object_prototype_methods
           then AList.update (scriptType c) NaN acc
      else (case map_of acc (scriptType c) of
              Some n \<Rightarrow> if truthy n then AList.update (scriptType c) (n + Fin 1) acc
                        else AList.update (scriptType c) (Fin 1) acc
            | None \<Rightarrow> AList.update (scriptType c) (Fin 1) acc))"
  unfolding coinTypeReducer_def scriptType_def Let_def by (rule refl)

lemma coinTypeReducer_update:
  "coinTypeReducer acc c = acc \<and> scriptType c = ''__proto__''
   \<or> (\<exists>v. coinTypeReducer acc c = AList.update (scriptType c) v acc)"
  unfolding coinTypeReducer_cases by (auto split: option.splits)

lemma coinTypeReducer_method:
  "scriptType c \<in> set Object_prototype_methods \<Longrightarrow>
   (scriptType c, NaN) \<in> set (coinTypeReducer acc c)"
  using proto_not_method unfolding coinTypeReducer_cases by (auto simp: update_member)

lemma coinTypeReducer_method_kept:
  assumes "k \<in> set Object_prototype_methods" and "(k, NaN) \<in> set acc"
  shows "(k, NaN) \<in> set (coinTypeReducer acc c)"
proof (cases "scriptType c = k")
  case True
  then show ?thesis using assms(1) coinTypeReducer_method[of c acc] by simp
next
  case False
  from coinTypeReducer_update[of acc c] show ?thesis
  proof
    assume "coinTypeReducer acc c = acc \<and> scriptType c = ''__proto__''"
    then show ?thesis using assms(2) by simp
  next
    assume "\<exists>v. coinTypeReducer acc c = AList.update (scriptType c) v acc"
    then obtain v where "coinTypeReducer acc c = AList.update (scriptType c) v acc" ..
    then show ?thesis using update_keeps[OF assms(2), of "scriptType c" v] False by auto
  qed
qed

lemma foldl_coinTypeReducer_method_kept:
  "k \<in> set Object_prototype_methods \<Longrightarrow> (k, NaN) \<in> set acc \<Longrightarrow>
   (k, NaN) \<in> set (foldl coinTypeReducer acc cs)"
  by (induction cs arbitrary: acc) (simp_all add: coinTypeReducer_method_kept)

lemma foldl_coinTypeReducer_method:
  "\<exists>c \<in> set cs. scriptType c \<in> set Object_prototype_methods \<Longrightarrow>
   \<exists>e \<in> set (foldl coinTypeReducer acc cs). snd e = NaN"
proof (induction cs arbitrary: acc)
  case Nil
  then show ?case by simp
next
  case (Cons c cs)
  show ?case
  proof (cases "scriptType c \<in> set Object_prototype_methods")
    case True
    then have "(scriptType c, NaN) \<in> set (foldl coinTypeReducer (coinTypeReducer acc c) cs)"
      by (intro foldl_coinTypeReducer_method_kept coinTypeReducer_method)
    then show ?thesis by force
  next
    case False
    with Cons.prems have "\<exists>c \<in> set cs. scriptType c \<in> set Object_prototype_methods" by simp
    from Cons.IH[OF this] show ?thesis by simp
  qed
qed

lemma coinTypeReducer_counted:
  assumes "counted acc m" and "scriptType c \<notin> set Object_prototype_methods"
    and "scriptType c \<noteq> ''__proto__''"
  shows "counted (coinTypeReducer acc c) (Suc m)"
proof (cases "map_of acc (scriptType c)")
  case None
  then have ab: "scriptType c \<notin> fst ` set acc" by (simp add: map_of_eq_None_iff)
  have r: "coinTypeReducer acc c = AList.update (scriptType c) (Fin 1) acc"
    using None assms(2,3) by (simp add: coinTypeReducer_cases)
  have "distinct (map fst (AList.update (scriptType c) (Fin 1) acc))"
    using assms(1) by (simp add: counted_def distinct_update)
  moreover have "\<forall>e \<in> set (AList.update (scriptType c) (Fin 1) acc).
      \<exists>k. 0 < k \<and> k \<le> Suc m \<and> snd e = Fin (of_nat k)"
  proof
    fix e assume "e \<in> set (AList.update (scriptType c) (Fin 1) acc)"
    then consider "e = (scriptType c, Fin 1)" | "e \<in> set acc" using update_set by fastforce
    then show "\<exists>k. 0 < k \<and> k \<le> Suc m \<and> snd e = Fin (of_nat k)"
    proof cases
      case 1
      then show ?thesis by (intro exI[of _ 1]) simp
    next
      case 2
      then obtain k where "0 < k" "k \<le> m" "snd e = Fin (of_nat k)"
        using assms(1) by (auto simp: counted_def)
      then show ?thesis by (intro exI[of _ k]) simp
    qed
  qed
  moreover have "sum_list (map snd (AList.update (scriptType c) (Fin 1) acc)) = Fin (of_nat (Suc m))"
    using update_absent_sum[OF ab, of "Fin 1"] assms(1) by (simp add: counted_def ac_simps)
  ultimately show ?thesis unfolding r counted_def by blast
next
  case (Some n)
  then have mem: "(scriptType c, n) \<in> set acc" by (rule map_of_SomeD)
  then obtain a where a: "0 < a" "a \<le> m" "n = Fin (of_nat a)"
    using assms(1) by (fastforce simp: counted_def)
  have tr: "truthy n" using a by (simp add: truthy_def)
  have r: "coinTypeReducer acc c = AList.update (scriptType c) (Fin (of_nat a) + Fin 1) acc"
    using Some tr a assms(2,3) by (simp add: coinTypeReducer_cases)
  have "distinct (map fst (AList.update (scriptType c) (Fin (of_nat a) + Fin 1) acc))"
    using assms(1) by (simp add: counted_def distinct_update)
  moreover have "\<forall>e \<in> set (AList.update (scriptType c) (Fin (of_nat a) + Fin 1) acc).
      \<exists>k. 0 < k \<and> k \<le> Suc m \<and> snd e = Fin (of_nat k)"
  proof
    fix e assume "e \<in> set (AList.update (scriptType c) (Fin (of_nat a) + Fin 1) acc)"
    then consider "e = (scriptType c, Fin (of_nat a) + Fin 1)" | "e \<in> set acc"
      using update_set by fastforce
    then show "\<exists>k. 0 < k \<and> k \<le> Suc m \<and> snd e = Fin (of_nat k)"
    proof cases
      case 1
      then show ?thesis using a by (intro exI[of _ "Suc a"]) (simp add: ac_simps)
    next
      case 2
      then obtain k where "0 < k" "k \<le> m" "snd e = Fin (of_nat k)"
        using assms(1) by (auto simp: counted_def)
      then show ?thesis by (intro exI[of _ k]) simp
    qed
  qed
  moreover have "sum_list (map snd (AList.update (scriptType c) (Fin (of_nat a) + Fin 1) acc))
      = Fin (of_nat (Suc m))"
    using update_present_sum[of acc "scriptType c" "of_nat a"] Some a assms(1)
    by (simp add: counted_def ac_simps)
  ultimately show ?thesis unfolding r counted_def by blast
qed

lemma coinTypeReducer_keys:
  assumes "scriptType c \<noteq> ''__proto__''"
  shows "fst ` set (coinTypeReducer acc c) = insert (scriptType c) (fst ` set acc)"
proof -
  obtain v where "coinTypeReducer acc c = AList.update (scriptType c) v acc"
    using coinTypeReducer_update[of acc c] assms by blast
  then show ?thesis by (simp add: dom_update)
qed

lemma coinTypeReducer_proto:
  "scriptType c = ''__proto__'' \<Longrightarrow> coinTypeReducer acc c = acc"
  by (simp add: coinTypeReducer_cases)

lemma foldl_coinTypeReducer_counted:
  "counted acc m \<Longrightarrow> \<forall>c \<in> set cs. scriptType c \<notin> set Object_prototype_methods \<Longrightarrow>
   counted (foldl coinTypeReducer acc cs) (m + length (counted_coins cs))"
proof (induction cs arbitrary: acc m)
  case Nil
  then show ?case by (simp add: counted_coins_def)
next
  case (Cons c cs)
  from Cons.prems(2) have rest: "\<forall>c \<in> set cs. scriptType c \<notin> set Object_prototype_methods"
    and c: "scriptType c \<notin> set Object_prototype_methods" by simp_all
  show ?case
  proof (cases "scriptType c = ''__proto__''")
    case True
    then show ?thesis
      using Cons.IH[OF Cons.prems(1) rest] by (simp add: coinTypeReducer_proto counted_coins_def)
  next
    case False
    from Cons.IH[OF coinTypeReducer_counted[OF Cons.prems(1) c False] rest] False
    show ?thesis by (simp add: counted_coins_def)
  qed
qed

lemma foldl_coinTypeReducer_keys:
  "fst ` set (foldl coinTypeReducer acc cs) = fst ` set acc \<union> scriptType ` set (counted_coins cs)"
proof (induction cs arbitrary: acc)
  case Nil
  then show ?case by (simp add: counted_coins_def)
next
  case (Cons c cs)
  show ?case
  proof (cases "scriptType c = ''__proto__''")
    case True
    then show ?thesis using Cons.IH[of acc] by (simp add: coinTypeReducer_proto counted_coins_def)
  next
    case False
    then show ?thesis
      using Cons.IH[of "coinTypeReducer acc c"]
      by (simp add: coinTypeReducer_keys counted_coins_def)
  qed
qed

lemma checkUInt53_of_nat:
  "checkUInt53 (Fin (of_nat k)) \<longleftrightarrow> 9007199254740991 < k"
proof -
  have "(9007199254740991::rat) < of_nat k \<longleftrightarrow> 9007199254740991 < k"
    using of_nat_less_iff[of 9007199254740991 k, where 'a = rat] by simp
  then show ?thesis
    by (simp add: checkUInt53_def MAX_SAFE_INTEGER_def zero_number_def)
qed

lemma raises_counted:
  assumes "counted ins m" and "counted outs n"
  shows "raises ins outs \<longleftrightarrow>
           (\<exists>k \<in> fst ` set ins. bad_shape k) \<or> 9007199254740991 < m \<or> 9007199254740991 < n"
proof -
  have small: "\<not> checkUInt53 (snd e)" if "e \<in> set acc" "counted acc j" "\<not> 9007199254740991 < j"
    for e acc j
  proof -
    from that obtain k where "k \<le> j" "snd e = Fin (of_nat k)" by (auto simp: counted_def)
    with that(3) show ?thesis by (simp add: checkUInt53_of_nat)
  qed
  have si: "sum_list (map snd ins) = Fin (of_nat m)" and so: "sum_list (map snd outs) = Fin (of_nat n)"
    using assms by (simp_all add: counted_def)
  show ?thesis
  proof (cases "9007199254740991 < m \<or> 9007199254740991 < n")
    case True
    then show ?thesis unfolding raises_def si so by (auto simp: checkUInt53_of_nat)
  next
    case False
    then have "\<forall>e \<in> set ins. \<not> checkUInt53 (snd e)" "\<forall>e \<in> set outs. \<not> checkUInt53 (snd e)"
      using small assms by blast+
    with False show ?thesis unfolding raises_def si so by (auto simp: checkUInt53_of_nat)
  qed
qed

lemma counted_Nil: "counted [] 0"
  by (simp add: counted_def zero_number_def)

lemma bad_shape_counted_coins:
  "(\<exists>c \<in> set (counted_coins cs). bad_shape (scriptType c)) \<longleftrightarrow> (\<exists>c \<in> set cs. bad_shape (scriptType c))"
  by (auto simp: counted_coins_def bad_shape_def)

lemma transactionBytes_raises:
  "isl (transactionBytes ins outs) \<longleftrightarrow>
     (\<exists>c \<in> set ins \<union> set outs. scriptType c \<in> set Object_prototype_methods)
     \<or> (\<exists>c \<in> set ins. bad_shape (scriptType c))
     \<or> 9007199254740991 < length (counted_coins ins)
     \<or> 9007199254740991 < length (counted_coins outs)"
proof (cases "\<exists>c \<in> set ins \<union> set outs. scriptType c \<in> set Object_prototype_methods")
  case True
  then have "(\<exists>e \<in> set (foldl coinTypeReducer [] ins). snd e = NaN)
           \<or> (\<exists>e \<in> set (foldl coinTypeReducer [] outs). snd e = NaN)"
    using foldl_coinTypeReducer_method[of ins "[]"] foldl_coinTypeReducer_method[of outs "[]"]
    by blast
  moreover have "checkUInt53 NaN" by (simp add: checkUInt53_def)
  ultimately have "raises (foldl coinTypeReducer [] ins) (foldl coinTypeReducer [] outs)"
    unfolding raises_def by metis
  then show ?thesis
    using True unfolding transactionBytes_def Let_def getByteCount_raises by simp
next
  case False
  then have pi: "\<forall>c \<in> set ins. scriptType c \<notin> set Object_prototype_methods"
    and po: "\<forall>c \<in> set outs. scriptType c \<notin> set Object_prototype_methods" by auto
  have ci: "counted (foldl coinTypeReducer [] ins) (length (counted_coins ins))"
    using foldl_coinTypeReducer_counted[OF counted_Nil pi] by simp
  have co: "counted (foldl coinTypeReducer [] outs) (length (counted_coins outs))"
    using foldl_coinTypeReducer_counted[OF counted_Nil po] by simp
  have k: "(\<exists>k \<in> fst ` set (foldl coinTypeReducer [] ins). bad_shape k)
             \<longleftrightarrow> (\<exists>c \<in> set ins. bad_shape (scriptType c))"
    unfolding foldl_coinTypeReducer_keys using bad_shape_counted_coins[of ins] by simp
  show ?thesis
    unfolding transactionBytes_def Let_def getByteCount_raises raises_counted[OF ci co] k
    using False by simp
qed

section \<open>Lemmas on the target-matching core\<close>

lemma unfold_Nil [simp]: "unfold_findTarget E t f (acc, fee0, []) = []"
  by (simp add: unfold_findTarget.simps findTarget_step_def)


lemma total_Nil [simp]: "total_value [] = 0"
  by (simp add: total_value_def)

lemma total_Cons [simp]: "total_value (c # cs) = coin_value c + total_value cs"
  by (simp add: total_value_def)

lemma total_append [simp]: "total_value (xs @ ys) = total_value xs + total_value ys"
  by (simp add: total_value_def)


lemma ft_unfold:
  assumes "transactionBytes [] targets = Inr bytes"
  shows "ft E targets f coins a =
    (let sel = selection_steps E targets f coins bytes;
         mb = fst (last sel); f1 = fst (snd (last sel));
         extra = mb - total_value targets - f1; feeChange = changeBytes E * f
     in if sel = [] then Inr \<lparr>fee = 0, inputs = [], outputs = []\<rparr>
        else if mb < total_value targets + f1 then Inr \<lparr>fee = f1, inputs = [], outputs = targets\<rparr>
        else if dustThreshold E f \<le> extra - feeChange
             then Inr \<lparr>fee = f1 + feeChange, inputs = map (\<lambda>e. snd (snd e)) sel,
                       outputs = targets @ [fromJS E (extra - feeChange) a True]\<rparr>
             else Inr \<lparr>fee = f1 + extra, inputs = map (\<lambda>e. snd (snd e)) sel, outputs = targets\<rparr>)"
  using assms unfolding ft_def selection_steps_def by (simp add: Let_def)



lemma selectAll_raises_iff:
  "isl (selectAll E f coins a) \<longleftrightarrow>
     (\<exists>c \<in> set (filter (\<lambda>c. effectiveValue E f c > 0) coins).
         scriptType c \<in> set Object_prototype_methods \<or> bad_shape (scriptType c))
     \<or> 9007199254740991 < length (counted_coins (filter (\<lambda>c. effectiveValue E f c > 0) coins))"
proof -
  let ?el = "filter (\<lambda>c. effectiveValue E f c > 0) coins"
  have e: "scriptType emptyObject \<notin> set Object_prototype_methods"
    "length (counted_coins [emptyObject]) = 1"
    by (simp_all add: scriptType_def emptyObject_def Object_prototype_methods_def counted_coins_def)
  have "isl (selectAll E f coins a) \<longleftrightarrow> isl (transactionBytes ?el [emptyObject])"
    by (cases "transactionBytes ?el [emptyObject]")
       (simp_all add: selectAll_def effectiveBalance_def Let_def)
  then show ?thesis unfolding transactionBytes_raises using e by auto
qed

section \<open>Lemmas on branch and bound\<close>

lemma effective_sum_snoc:
  "effective_sum E f (cs @ [c]) = effective_sum E f cs + effectiveValue E f c"
  by (simp add: effective_sum_def)

lemma subseq_take_snoc:
  assumes "subseq cur (take depth xs)" and "depth < length xs"
  shows "subseq (cur @ [xs ! depth]) (take (Suc depth) xs)"
  using assms by (simp add: take_Suc_conv_app_nth list_emb_append_mono)

lemma subseq_take_Suc:
  assumes "subseq cur (take depth xs)"
  shows "subseq cur (take (Suc depth) xs)"
proof (cases "depth < length xs")
  case True
  then show ?thesis using assms by (simp add: take_Suc_conv_app_nth list_emb_prefix)
next
  case False
  then show ?thesis using assms by simp
qed

lemma branchAndBound_node_result:
  "subseq cur (take depth sortedCoins) \<Longrightarrow> ev = effective_sum E f cur \<Longrightarrow>
   fst (branchAndBound_node E sortedCoins f tfm mr depth cur ev st) = r \<Longrightarrow>
   r = [] \<or> (subseq r sortedCoins \<and> tfm \<le> effective_sum E f r \<and> \<not> tfm + mr < effective_sum E f r)"
proof (induction E sortedCoins f tfm mr depth cur ev st arbitrary: r rule: branchAndBound_node.induct)
  case (1 E sortedCoins f tfm mr depth cur ev st0)
  let ?st = "st0\<lparr>bnbTries := bnbTries st0 - 1\<rparr>"
  let ?inc = "cur @ [sortedCoins ! depth]"
  let ?ev' = "ev + effectiveValue E f (sortedCoins ! depth)"
  show ?case
  proof (cases "ev > tfm + mr \<or> (\<not> ev \<ge> tfm \<and> (bnbTries ?st < 1 \<or> depth \<ge> length sortedCoins))")
    case True
    then show ?thesis
      using "1.prems"(3) by (subst (asm) branchAndBound_node.simps) (auto simp: Let_def)
  next
    case nstop: False
    show ?thesis
    proof (cases "ev \<ge> tfm")
      case True
      with nstop have "r = cur"
        using "1.prems"(3) by (subst (asm) branchAndBound_node.simps) (auto simp: Let_def)
      moreover have "subseq cur sortedCoins"
        using "1.prems"(1) by (metis list_emb_prefix append_take_drop_id)
      ultimately show ?thesis using True nstop "1.prems"(2) by auto
    next
      case False
      with nstop have c: "\<not> ev > tfm + mr" "\<not> ev \<ge> tfm" "\<not> bnbTries ?st < 1" "\<not> depth \<ge> length sortedCoins"
        by auto
      then have d: "depth < length sortedCoins" by simp
      have s1: "subseq ?inc (take (depth + 1) sortedCoins)"
        using subseq_take_snoc[OF "1.prems"(1) d] by simp
      have s2: "subseq cur (take (depth + 1) sortedCoins)"
        using subseq_take_Suc[OF "1.prems"(1)] by simp
      have e1: "?ev' = effective_sum E f ?inc"
        using "1.prems"(2) by (simp add: effective_sum_snoc)
      obtain b st1 where b: "includeFirst E ?st = (b, st1)" by (cases "includeFirst E ?st")
      show ?thesis
      proof (cases b)
        case True
        obtain inc st2 where i: "branchAndBound_node E sortedCoins f tfm mr (depth + 1) ?inc ?ev' st1 = (inc, st2)"
          by (cases "branchAndBound_node E sortedCoins f tfm mr (depth + 1) ?inc ?ev' st1")
        have ih1: "inc = [] \<or> (subseq inc sortedCoins \<and> tfm \<le> effective_sum E f inc \<and> \<not> tfm + mr < effective_sum E f inc)"
          using "1.IH"(1)[of ?st b st1 inc] c b True s1 e1 i by simp
        show ?thesis
        proof (cases "inc = []")
          case False
          then have "r = inc"
            using "1.prems"(3) c b True i
            by (subst (asm) branchAndBound_node.simps) (simp add: Let_def)
          with ih1 False show ?thesis by simp
        next
          case e: True
          then have "r = fst (branchAndBound_node E sortedCoins f tfm mr (depth + 1) cur ev st2)"
            using "1.prems"(3) c b True i
            by (subst (asm) branchAndBound_node.simps) (simp add: Let_def)
          then show ?thesis
            using "1.IH"(2)[of ?st b st1 inc st2 r] c b True i e s2 "1.prems"(2) by simp
        qed
      next
        case False
        obtain exc st2 where i: "branchAndBound_node E sortedCoins f tfm mr (depth + 1) cur ev st1 = (exc, st2)"
          by (cases "branchAndBound_node E sortedCoins f tfm mr (depth + 1) cur ev st1")
        have ih1: "exc = [] \<or> (subseq exc sortedCoins \<and> tfm \<le> effective_sum E f exc \<and> \<not> tfm + mr < effective_sum E f exc)"
          using "1.IH"(3)[of ?st b st1 exc] c b False s2 "1.prems"(2) i by simp
        show ?thesis
        proof (cases "exc = []")
          case ne: False
          then have "r = exc"
            using "1.prems"(3) c b False i
            by (subst (asm) branchAndBound_node.simps) (simp add: Let_def)
          with ih1 ne show ?thesis by simp
        next
          case e: True
          then have "r = fst (branchAndBound_node E sortedCoins f tfm mr (depth + 1) ?inc ?ev' st2)"
            using "1.prems"(3) c b False i
            by (subst (asm) branchAndBound_node.simps) (simp add: Let_def)
          then show ?thesis
            using "1.IH"(4)[of ?st b st1 exc st2 r] c b False i e s1 e1 by simp
        qed
      qed
    qed
  qed
qed






section \<open>The claims\<close>



text \<open>
  Claim C2. When the accumulation is not empty and its balance covers the target plus
  the fee, the core emits one change output of value \<open>extra - changeFee\<close> at the change
  address and adds \<open>changeFee\<close> to the fee if that value reaches the dust threshold, and
  otherwise adds all of \<open>extra\<close> to the fee and emits the targets alone. So in every
  result of the core, an output that is not a target is that change output and is worth
  the dust threshold at least.
\<close>

theorem findTarget_change_or_burn:
  assumes "transactionBytes [] targets = Inr bytes"
    and "sel = selection_steps E targets f coins bytes"
    and "maxBalance = fst (last sel)" and "fee0 = fst (snd (last sel))"
    and "extra = maxBalance - total_value targets - fee0" and "changeFee = changeBytes E * f"
    and "changeOutput = \<lparr>coin_value = extra - changeFee, address = changeAddress, change = True,
                          type = Some (typeOfAddress E changeAddress)\<rparr>"
  shows "(sel \<noteq> [] \<and> total_value targets + fee0 \<le> maxBalance \<longrightarrow>
            ft E targets f coins changeAddress =
              Inr (if dustThreshold E f \<le> extra - changeFee
                   then \<lparr>fee = fee0 + changeFee, inputs = map (\<lambda>e. snd (snd e)) sel,
                         outputs = targets @ [changeOutput]\<rparr>
                   else \<lparr>fee = fee0 + extra, inputs = map (\<lambda>e. snd (snd e)) sel,
                         outputs = targets\<rparr>))
         \<and> (\<forall>s c. ft E targets f coins changeAddress = Inr s \<and> c \<in> set (outputs s)
                    \<and> c \<notin> set targets
                \<longrightarrow> c = changeOutput \<and> dustThreshold E f \<le> coin_value c)"
proof (intro conjI allI impI)
  assume a: "sel \<noteq> [] \<and> total_value targets + fee0 \<le> maxBalance"
  then have nl: "\<not> maxBalance < total_value targets + fee0"
    using number_le_not_less by blast
  show "ft E targets f coins changeAddress =
              Inr (if dustThreshold E f \<le> extra - changeFee
                   then \<lparr>fee = fee0 + changeFee, inputs = map (\<lambda>e. snd (snd e)) sel,
                         outputs = targets @ [changeOutput]\<rparr>
                   else \<lparr>fee = fee0 + extra, inputs = map (\<lambda>e. snd (snd e)) sel,
                         outputs = targets\<rparr>)"
    using ft_unfold[OF assms(1), of E f coins changeAddress] assms(2-7) nl a
    by (simp add: Let_def fromJS_def)
next
  fix s c
  assume b: "ft E targets f coins changeAddress = Inr s \<and> c \<in> set (outputs s) \<and> c \<notin> set targets"
  have d: "c = changeOutput \<and> dustThreshold E f \<le> coin_value c"
    using ft_unfold[OF assms(1), of E f coins changeAddress] assms(2-7) b
    by (auto simp: Let_def fromJS_def split: if_splits)
  from d show "c = changeOutput" by (rule conjunct1)
  from d show "dustThreshold E f \<le> coin_value c" by (rule conjunct2)
qed

theorem findTarget_change_or_burn_witness:
  "transactionBytes [] [p2pkh_coin 1500] = Inr (Fin 44)
   \<and> selection_steps example_env [p2pkh_coin 1500] (Fin 1)
         [p2pkh_coin 1000, p2pkh_coin 2000, p2pkh_coin 3000] (Fin 44)
       = [(Fin 1000, Fin 191, p2pkh_coin 1000), (Fin 3000, Fin 338, p2pkh_coin 2000)]
   \<and> total_value [p2pkh_coin 1500] + Fin 338 \<le> Fin 3000
   \<and> dustThreshold example_env (Fin 1)
       \<le> Fin 3000 - total_value [p2pkh_coin 1500] - Fin 338 - changeBytes example_env * Fin 1
   \<and> ft example_env [p2pkh_coin 1500] (Fin 1)
         [p2pkh_coin 1000, p2pkh_coin 2000, p2pkh_coin 3000] ''chg''
       = Inr \<lparr>fee = Fin 372, inputs = [p2pkh_coin 1000, p2pkh_coin 2000],
              outputs = [p2pkh_coin 1500,
                         \<lparr>coin_value = Fin 1128, address = ''chg'', change = True,
                            type = Some ''P2PKH''\<rparr>]\<rparr>
   \<and> selection_steps example_env [p2pkh_coin 1500] (Fin 1) [p2pkh_coin 1800] (Fin 44)
       = [(Fin 1800, Fin 191, p2pkh_coin 1800)]
   \<and> total_value [p2pkh_coin 1500] + Fin 191 \<le> Fin 1800
   \<and> \<not> dustThreshold example_env (Fin 1)
         \<le> Fin 1800 - total_value [p2pkh_coin 1500] - Fin 191 - changeBytes example_env * Fin 1
   \<and> ft example_env [p2pkh_coin 1500] (Fin 1) [p2pkh_coin 1800] ''chg''
       = Inr \<lparr>fee = Fin 300, inputs = [p2pkh_coin 1800], outputs = [p2pkh_coin 1500]\<rparr>"
proof -
  have tb: "transactionBytes [] [p2pkh_coin 1500] = Inr (Fin 44)" by code_simp
  have s1: "selection_steps example_env [p2pkh_coin 1500] (Fin 1)
         [p2pkh_coin 1000, p2pkh_coin 2000, p2pkh_coin 3000] (Fin 44)
       = [(Fin 1000, Fin 191, p2pkh_coin 1000), (Fin 3000, Fin 338, p2pkh_coin 2000)]"
    by code_simp
  have s2: "selection_steps example_env [p2pkh_coin 1500] (Fin 1) [p2pkh_coin 1800] (Fin 44)
       = [(Fin 1800, Fin 191, p2pkh_coin 1800)]"
    by code_simp
  have c1: "total_value [p2pkh_coin 1500] + Fin 338 \<le> Fin 3000" by code_simp
  have c2: "total_value [p2pkh_coin 1500] + Fin 191 \<le> Fin 1800" by code_simp
  have d1: "dustThreshold example_env (Fin 1)
       \<le> Fin 3000 - total_value [p2pkh_coin 1500] - Fin 338 - changeBytes example_env * Fin 1"
    by code_simp
  have d2: "\<not> dustThreshold example_env (Fin 1)
         \<le> Fin 1800 - total_value [p2pkh_coin 1500] - Fin 191 - changeBytes example_env * Fin 1"
    by code_simp
  have v: "Fin 3000 - total_value [p2pkh_coin 1500] - Fin 338 - changeBytes example_env * Fin 1
             = Fin 1128"
    "Fin 338 + changeBytes example_env * Fin 1 = Fin 372"
    "Fin 191 + (Fin 1800 - total_value [p2pkh_coin 1500] - Fin 191) = Fin 300"
    "typeOfAddress example_env ''chg'' = ''P2PKH''"
    by code_simp+
  note t1 = findTarget_change_or_burn[OF tb s1[symmetric] refl refl refl refl refl,
      where changeAddress = "''chg''", THEN conjunct1]
  note t2 = findTarget_change_or_burn[OF tb s2[symmetric] refl refl refl refl refl,
      where changeAddress = "''chg''", THEN conjunct1]
  have a: "ft example_env [p2pkh_coin 1500] (Fin 1)
         [p2pkh_coin 1000, p2pkh_coin 2000, p2pkh_coin 3000] ''chg''
       = Inr \<lparr>fee = Fin 372, inputs = [p2pkh_coin 1000, p2pkh_coin 2000],
              outputs = [p2pkh_coin 1500,
                         \<lparr>coin_value = Fin 1128, address = ''chg'', change = True,
                            type = Some ''P2PKH''\<rparr>]\<rparr>"
    using t1 c1 d1 v by simp
  have b: "ft example_env [p2pkh_coin 1500] (Fin 1) [p2pkh_coin 1800] ''chg''
       = Inr \<lparr>fee = Fin 300, inputs = [p2pkh_coin 1800], outputs = [p2pkh_coin 1500]\<rparr>"
    using t2 c2 d2 v by simp
  show ?thesis
    by (intro conjI) (rule tb s1 c1 d1 a s2 c2 d2 b)+
qed

text \<open>
  Claim C3, as stated, fails on the order of the list searched. The list is sorted with
  the comparison \<open>(a, b) => a.lte(b)\<close>, the one \<open>descentDraw\<close> uses, and is not ascending:
  for the coins 3500 and 1000, given in that order, the comparison answers \<open>false\<close> and an
  array sort leaves the two as they are. The search then selects the larger coin first,
  and where it finds nothing the fallback draws from the list with the larger coin
  first, which is not the draw from the ascending list.
\<close>

theorem branchAndBound_order_counterexample:
  "filter (\<lambda>c. effectiveValue example_env (Fin 1) c > 0)
     (sort_by example_env (\<lambda>a b. lte example_env a b) [p2pkh_coin 3500, p2pkh_coin 1000])
     = [p2pkh_coin 3500, p2pkh_coin 1000]
   \<and> \<not> sorted_wrt (\<lambda>a b. coin_value a \<le> coin_value b) [p2pkh_coin 3500, p2pkh_coin 1000]
   \<and> bnb example_env [p2pkh_coin 4100] (Fin 1) [p2pkh_coin 3500, p2pkh_coin 1000] ''chg''
         (Some ''seed'') (\<lambda>n. Fin (1 / 4))
       = Inr \<lparr>fee = Fin 400, inputs = [p2pkh_coin 3500, p2pkh_coin 1000],
              outputs = [p2pkh_coin 4100]\<rparr>
   \<and> \<not> subseq [p2pkh_coin 3500, p2pkh_coin 1000] [p2pkh_coin 1000, p2pkh_coin 3500]
   \<and> bnb example_env [p2pkh_coin 1500] (Fin 1) [p2pkh_coin 3500, p2pkh_coin 1000] ''chg''
         (Some ''seed'') (\<lambda>n. Fin (1 / 4))
       = Inr \<lparr>fee = Fin 225, inputs = [p2pkh_coin 3500],
              outputs = [p2pkh_coin 1500,
                         \<lparr>coin_value = Fin 1775, address = ''chg'', change = True,
                            type = Some ''P2PKH''\<rparr>]\<rparr>
   \<and> singleRandomDraw example_env [p2pkh_coin 1500] (Fin 1)
         [p2pkh_coin 1000, p2pkh_coin 3500] ''chg'' (Some ''seed'') (\<lambda>n. Fin (1 / 4))
       = Inr \<lparr>fee = Fin 372, inputs = [p2pkh_coin 1000, p2pkh_coin 3500],
              outputs = [p2pkh_coin 1500,
                         \<lparr>coin_value = Fin 2628, address = ''chg'', change = True,
                            type = Some ''P2PKH''\<rparr>]\<rparr>"
proof -
  have order: "filter (\<lambda>c. effectiveValue example_env (Fin 1) c > 0)
     (sort_by example_env (\<lambda>a b. lte example_env a b) [p2pkh_coin 3500, p2pkh_coin 1000])
     = [p2pkh_coin 3500, p2pkh_coin 1000]"
    by code_simp
  have unsorted: "\<not> sorted_wrt (\<lambda>a b. coin_value a \<le> coin_value b)
      [p2pkh_coin 3500, p2pkh_coin 1000]"
    by (simp add: p2pkh_coin_def)
  have found: "bnb example_env [p2pkh_coin 4100] (Fin 1) [p2pkh_coin 3500, p2pkh_coin 1000] ''chg''
         (Some ''seed'') (\<lambda>n. Fin (1 / 4))
       = Inr \<lparr>fee = Fin 400, inputs = [p2pkh_coin 3500, p2pkh_coin 1000],
              outputs = [p2pkh_coin 4100]\<rparr>"
    by code_simp
  have nosub: "\<not> subseq [p2pkh_coin 3500, p2pkh_coin 1000] [p2pkh_coin 1000, p2pkh_coin 3500]"
    by (simp add: p2pkh_coin_def)
  have fallback: "bnb example_env [p2pkh_coin 1500] (Fin 1) [p2pkh_coin 3500, p2pkh_coin 1000] ''chg''
         (Some ''seed'') (\<lambda>n. Fin (1 / 4))
       = Inr \<lparr>fee = Fin 225, inputs = [p2pkh_coin 3500],
              outputs = [p2pkh_coin 1500,
                         \<lparr>coin_value = Fin 1775, address = ''chg'', change = True,
                            type = Some ''P2PKH''\<rparr>]\<rparr>"
    by code_simp
  have ascending: "singleRandomDraw example_env [p2pkh_coin 1500] (Fin 1)
         [p2pkh_coin 1000, p2pkh_coin 3500] ''chg'' (Some ''seed'') (\<lambda>n. Fin (1 / 4))
       = Inr \<lparr>fee = Fin 372, inputs = [p2pkh_coin 1000, p2pkh_coin 3500],
              outputs = [p2pkh_coin 1500,
                         \<lparr>coin_value = Fin 2628, address = ''chg'', change = True,
                            type = Some ''P2PKH''\<rparr>]\<rparr>"
    by code_simp
  show ?thesis
    by (intro conjI) (rule order unsorted found nosub fallback ascending)+
qed

text \<open>
  Claim C3, amended. Branch and bound returns what its search finds: when the search
  finds a non-empty selection, that selection is the inputs, it is a subsequence of the
  list searched (the coins of positive effective value, in the order the sort with the
  comparison of \<open>descentDraw\<close> left them), its effective value lies between
  \<open>targetForMatch\<close> and \<open>targetForMatch + matchRange\<close>, the fee is the value selected less
  the target, and the outputs are the targets; when the search finds nothing, the result
  is that of \<open>singleRandomDraw\<close> with the same seed on the list searched.
\<close>

theorem branchAndBound_match_or_fallback:
  assumes "transactionBytes [] targets = Inr bytes"
    and "dustThreshold E f \<noteq> NaN"
    and "set (sort_by E (\<lambda>a b. lte E a b) coins) \<subseteq> set coins"
    and "sortedCoins = filter (\<lambda>c. effectiveValue E f c > 0) (sort_by E (\<lambda>a b. lte E a b) coins)"
    and "target = total_value targets"
    and "targetForMatch = target + bytes * f"
    and "matchRange = dustThreshold E f"
    and "branchAndBound_node E sortedCoins f targetForMatch matchRange 0 [] 0
           \<lparr>bnbTries = 1000000, rng = map_option (seedrandom E) seed, world = w\<rparr> = (sel, st)"
  shows "if sel = []
         then bnb E targets f coins changeAddress seed w
                = singleRandomDraw E targets f sortedCoins changeAddress seed (world st)
         else bnb E targets f coins changeAddress seed w
                = Inr \<lparr>fee = total_value sel - target, inputs = sel, outputs = targets\<rparr>
              \<and> subseq sel sortedCoins
              \<and> set sel \<subseteq> {c \<in> set coins. effectiveValue E f c > 0}
              \<and> targetForMatch \<le> effective_sum E f sel
              \<and> effective_sum E f sel \<le> targetForMatch + matchRange"
proof -
  have u: "bnb E targets f coins changeAddress seed w =
      (if sel = [] then singleRandomDraw E targets f sortedCoins changeAddress seed (world st)
       else Inr \<lparr>fee = total_value sel - target, inputs = sel, outputs = targets\<rparr>)"
    using assms(1) assms(8)[unfolded assms(4-7)] unfolding bnb_def assms(4-7)
    by (simp add: Let_def)
  have inv: "sel = [] \<or> (subseq sel sortedCoins \<and> targetForMatch \<le> effective_sum E f sel
      \<and> \<not> targetForMatch + matchRange < effective_sum E f sel)"
  proof -
    have "fst (branchAndBound_node E sortedCoins f targetForMatch matchRange 0 [] 0
           \<lparr>bnbTries = 1000000, rng = map_option (seedrandom E) seed, world = w\<rparr>) = sel"
      using assms(8) by simp
    then show ?thesis
      by (rule branchAndBound_node_result[rotated 2]) (simp_all add: effective_sum_def)
  qed
  show ?thesis
  proof (cases "sel = []")
    case True
    then show ?thesis using u by simp
  next
    case False
    with inv have i: "subseq sel sortedCoins" "targetForMatch \<le> effective_sum E f sel"
      "\<not> targetForMatch + matchRange < effective_sum E f sel" by auto
    have "set sel \<subseteq> set sortedCoins"
      using i(1) list_emb_set[of "(=)" sel sortedCoins] by auto
    then have sub: "set sel \<subseteq> {c \<in> set coins. effectiveValue E f c > 0}"
      using assms(3) unfolding assms(4) by auto
    have up: "effective_sum E f sel \<le> targetForMatch + matchRange"
      using i(2,3) assms(2) unfolding assms(7) by (rule number_upper)
    show ?thesis using False u i(1,2) sub up by simp
  qed
qed

theorem branchAndBound_match_or_fallback_witness:
  "transactionBytes [] [p2pkh_coin 2500] = Inr (Fin 44)
   \<and> dustThreshold example_env (Fin 1) \<noteq> NaN
   \<and> set (sort_by example_env (\<lambda>a b. lte example_env a b) [p2pkh_coin 1000, p2pkh_coin 2000, p2pkh_coin 3500])
       \<subseteq> set [p2pkh_coin 1000, p2pkh_coin 2000, p2pkh_coin 3500]
   \<and> filter (\<lambda>c. effectiveValue example_env (Fin 1) c > 0)
        (sort_by example_env (\<lambda>a b. lte example_env a b) [p2pkh_coin 1000, p2pkh_coin 2000, p2pkh_coin 3500])
       = [p2pkh_coin 3500, p2pkh_coin 2000, p2pkh_coin 1000]
   \<and> bnb example_env [p2pkh_coin 2500] (Fin 1) [p2pkh_coin 1000, p2pkh_coin 2000, p2pkh_coin 3500] ''chg'' (Some ''seed'')
         (\<lambda>n. Fin (1 / 4))
       = Inr \<lparr>fee = total_value [p2pkh_coin 2000, p2pkh_coin 1000] - total_value [p2pkh_coin 2500],
              inputs = [p2pkh_coin 2000, p2pkh_coin 1000], outputs = [p2pkh_coin 2500]\<rparr>
   \<and> subseq [p2pkh_coin 2000, p2pkh_coin 1000] [p2pkh_coin 3500, p2pkh_coin 2000, p2pkh_coin 1000]
   \<and> total_value [p2pkh_coin 2500] + Fin 44 * Fin 1 \<le> effective_sum example_env (Fin 1) [p2pkh_coin 2000, p2pkh_coin 1000]
   \<and> effective_sum example_env (Fin 1) [p2pkh_coin 2000, p2pkh_coin 1000]
       \<le> total_value [p2pkh_coin 2500] + Fin 44 * Fin 1 + dustThreshold example_env (Fin 1)
   \<and> fst (branchAndBound_node example_env [p2pkh_coin 3500, p2pkh_coin 2000, p2pkh_coin 1000] (Fin 1)
            (total_value [p2pkh_coin 1500] + Fin 44 * Fin 1) (dustThreshold example_env (Fin 1)) 0 [] 0
            \<lparr>bnbTries = 1000000, rng = map_option (seedrandom example_env) (Some ''seed''),
               world = (\<lambda>n. Fin (1 / 4))\<rparr>) = []
   \<and> bnb example_env [p2pkh_coin 1500] (Fin 1) [p2pkh_coin 1000, p2pkh_coin 2000, p2pkh_coin 3500] ''chg'' (Some ''seed'')
         (\<lambda>n. Fin (1 / 4))
       = singleRandomDraw example_env [p2pkh_coin 1500] (Fin 1) [p2pkh_coin 3500, p2pkh_coin 2000, p2pkh_coin 1000] ''chg''
           (Some ''seed'')
           (world (snd (branchAndBound_node example_env [p2pkh_coin 3500, p2pkh_coin 2000, p2pkh_coin 1000] (Fin 1)
              (total_value [p2pkh_coin 1500] + Fin 44 * Fin 1) (dustThreshold example_env (Fin 1)) 0 [] 0
              \<lparr>bnbTries = 1000000, rng = map_option (seedrandom example_env) (Some ''seed''),
                 world = (\<lambda>n. Fin (1 / 4))\<rparr>)))"
proof -
  let ?C = "[p2pkh_coin 1000, p2pkh_coin 2000, p2pkh_coin 3500]"
  let ?W = "\<lambda>n::nat. Fin (1 / 4)"
  let ?st = "\<lparr>bnbTries = 1000000, rng = map_option (seedrandom example_env) (Some ''seed''),
               world = ?W\<rparr>"
  have tb: "transactionBytes [] [p2pkh_coin 2500] = Inr (Fin 44)"
    and tb': "transactionBytes [] [p2pkh_coin 1500] = Inr (Fin 44)" by code_simp+
  have d: "dustThreshold example_env (Fin 1) \<noteq> NaN" by code_simp
  have p: "set (sort_by example_env (\<lambda>a b. lte example_env a b) ?C) \<subseteq> set ?C" by code_simp
  have sc: "filter (\<lambda>c. effectiveValue example_env (Fin 1) c > 0)
        (sort_by example_env (\<lambda>a b. lte example_env a b) ?C) = [p2pkh_coin 3500, p2pkh_coin 2000, p2pkh_coin 1000]"
    by code_simp
  have n1: "fst (branchAndBound_node example_env [p2pkh_coin 3500, p2pkh_coin 2000, p2pkh_coin 1000] (Fin 1)
            (total_value [p2pkh_coin 2500] + Fin 44 * Fin 1) (dustThreshold example_env (Fin 1)) 0 [] 0 ?st)
          = [p2pkh_coin 2000, p2pkh_coin 1000]" by code_simp
  have n2: "fst (branchAndBound_node example_env [p2pkh_coin 3500, p2pkh_coin 2000, p2pkh_coin 1000] (Fin 1)
            (total_value [p2pkh_coin 1500] + Fin 44 * Fin 1) (dustThreshold example_env (Fin 1)) 0 [] 0 ?st)
          = []" by code_simp
  have ne: "[p2pkh_coin 2000, p2pkh_coin 1000] \<noteq> []" by simp
  note a = branchAndBound_match_or_fallback[OF tb d p sc[symmetric] refl refl refl surjective_pairing,
      where changeAddress = "''chg''" and seed = "Some ''seed''" and w = ?W,
      unfolded n1 if_not_P[OF ne]]
  note b = branchAndBound_match_or_fallback[OF tb' d p sc[symmetric] refl refl refl surjective_pairing,
      where changeAddress = "''chg''" and seed = "Some ''seed''" and w = ?W,
      unfolded n2 if_P[OF refl]]
  show ?thesis
    by (intro conjI) (rule tb d p sc n2 b a[THEN conjunct1] a[THEN conjunct2, THEN conjunct1]
        a[THEN conjunct2, THEN conjunct2, THEN conjunct2, THEN conjunct1]
        a[THEN conjunct2, THEN conjunct2, THEN conjunct2, THEN conjunct2])+
qed

text \<open>
  Claim C4, as stated, fails: with no spendable coin the core returns no outputs at all,
  not the targets.
\<close>

theorem findTarget_no_coins_counterexample:
  "ft example_env [p2pkh_coin 1500] (Fin 1) [] ''chg'' = Inr \<lparr>fee = Fin 0, inputs = [], outputs = []\<rparr>
   \<and> ft example_env [p2pkh_coin 1500] (Fin 1) [] ''chg''
       \<noteq> Inr \<lparr>fee = Fin 0, inputs = [], outputs = [p2pkh_coin 1500]\<rparr>
   \<and> ft example_env [p2pkh_coin 1500] (Fin 1) [p2pkh_coin 100] ''chg'' = Inr \<lparr>fee = Fin 0, inputs = [], outputs = []\<rparr>"
  by code_simp

text \<open>
  Claim C4, amended. With no coin of positive effective value the core returns the fee
  0, no inputs and no outputs. When the accumulation is not empty and its balance stays
  below the target plus the accumulated fee, it returns that fee, no inputs and the
  targets. A result without inputs is one of these two.
\<close>

theorem findTarget_failure:
  assumes "transactionBytes [] targets = Inr bytes"
    and "sel = selection_steps E targets f coins bytes"
  shows "(filter (\<lambda>c. effectiveValue E f c > 0) coins = [] \<longrightarrow>
            ft E targets f coins changeAddress = Inr \<lparr>fee = 0, inputs = [], outputs = []\<rparr>)
       \<and> (sel \<noteq> [] \<and> fst (last sel) < total_value targets + fst (snd (last sel)) \<longrightarrow>
            ft E targets f coins changeAddress
              = Inr \<lparr>fee = fst (snd (last sel)), inputs = [], outputs = targets\<rparr>)
       \<and> (\<forall>s. ft E targets f coins changeAddress = Inr s \<and> inputs s = [] \<longrightarrow>
            (sel = [] \<and> s = \<lparr>fee = 0, inputs = [], outputs = []\<rparr>)
            \<or> (sel \<noteq> [] \<and> fst (last sel) < total_value targets + fst (snd (last sel))
                \<and> s = \<lparr>fee = fst (snd (last sel)), inputs = [], outputs = targets\<rparr>))"
proof (intro conjI allI impI)
  assume "filter (\<lambda>c. effectiveValue E f c > 0) coins = []"
  then have "sel = []" unfolding assms(2) selection_steps_def by simp
  then show "ft E targets f coins changeAddress = Inr \<lparr>fee = 0, inputs = [], outputs = []\<rparr>"
    using ft_unfold[OF assms(1), of E f coins changeAddress] assms(2) by (simp add: Let_def)
next
  assume "sel \<noteq> [] \<and> fst (last sel) < total_value targets + fst (snd (last sel))"
  then show "ft E targets f coins changeAddress
              = Inr \<lparr>fee = fst (snd (last sel)), inputs = [], outputs = targets\<rparr>"
    using ft_unfold[OF assms(1), of E f coins changeAddress] assms(2) by (simp add: Let_def)
next
  fix s
  assume "ft E targets f coins changeAddress = Inr s \<and> inputs s = []"
  then show "(sel = [] \<and> s = \<lparr>fee = 0, inputs = [], outputs = []\<rparr>)
            \<or> (sel \<noteq> [] \<and> fst (last sel) < total_value targets + fst (snd (last sel))
                \<and> s = \<lparr>fee = fst (snd (last sel)), inputs = [], outputs = targets\<rparr>)"
    using ft_unfold[OF assms(1), of E f coins changeAddress] assms(2)
    by (auto simp: Let_def split: if_splits)
qed

theorem findTarget_failure_witness:
  "transactionBytes [] [p2pkh_coin 1500] = Inr (Fin 44)
   \<and> filter (\<lambda>c. effectiveValue example_env (Fin 1) c > 0) [p2pkh_coin 100] = []
   \<and> ft example_env [p2pkh_coin 1500] (Fin 1) [p2pkh_coin 100] ''chg'' = Inr \<lparr>fee = 0, inputs = [], outputs = []\<rparr>
   \<and> selection_steps example_env [p2pkh_coin 1500] (Fin 1) [p2pkh_coin 1000] (Fin 44) = [(Fin 1000, Fin 191, p2pkh_coin 1000)]
   \<and> Fin 1000 < total_value [p2pkh_coin 1500] + Fin 191
   \<and> ft example_env [p2pkh_coin 1500] (Fin 1) [p2pkh_coin 1000] ''chg''
       = Inr \<lparr>fee = Fin 191, inputs = [], outputs = [p2pkh_coin 1500]\<rparr>"
proof -
  have tb: "transactionBytes [] [p2pkh_coin 1500] = Inr (Fin 44)" by code_simp
  have e: "filter (\<lambda>c. effectiveValue example_env (Fin 1) c > 0) [p2pkh_coin 100] = []" by code_simp
  have s: "selection_steps example_env [p2pkh_coin 1500] (Fin 1) [p2pkh_coin 1000] (Fin 44) = [(Fin 1000, Fin 191, p2pkh_coin 1000)]"
    by code_simp
  have l: "Fin 1000 < total_value [p2pkh_coin 1500] + Fin 191" by code_simp
  note c1 = findTarget_failure[OF tb refl, of example_env "Fin 1" "[p2pkh_coin 100]" "''chg''", THEN conjunct1]
  have a: "ft example_env [p2pkh_coin 1500] (Fin 1) [p2pkh_coin 100] ''chg'' = Inr \<lparr>fee = 0, inputs = [], outputs = []\<rparr>"
    using c1 e by (rule mp)
  note c2 = findTarget_failure[OF tb s[symmetric], of "''chg''", THEN conjunct2, THEN conjunct1]
  have "[(Fin 1000, Fin 191, p2pkh_coin 1000)] \<noteq> []
        \<and> fst (last [(Fin 1000, Fin 191, p2pkh_coin 1000)])
            < total_value [p2pkh_coin 1500] + fst (snd (last [(Fin 1000, Fin 191, p2pkh_coin 1000)]))"
    using l by simp
  with c2 have "ft example_env [p2pkh_coin 1500] (Fin 1) [p2pkh_coin 1000] ''chg''
       = Inr \<lparr>fee = fst (snd (last [(Fin 1000, Fin 191, p2pkh_coin 1000)])), inputs = [], outputs = [p2pkh_coin 1500]\<rparr>"
    by (rule mp)
  then have b: "ft example_env [p2pkh_coin 1500] (Fin 1) [p2pkh_coin 1000] ''chg''
       = Inr \<lparr>fee = Fin 191, inputs = [], outputs = [p2pkh_coin 1500]\<rparr>"
    by simp
  show ?thesis
    by (intro conjI) (rule tb e a s l b)+
qed



text \<open>
  Claim C8. \<open>getByteCount({P2PKH:1},{P2PKH:1})\<close> is 191: the P2PKH input weighs
  \<open>147 * 4\<close> weight units in the table, and
  \<open>(147 * 4 + 34 * 4 + 8 * 4 + 1 * 4 + 1 * 4) / 4 = 191\<close>.
\<close>

theorem getByteCount_P2PKH_pinned: "getByteCount [(''P2PKH'', Fin 1)] [(''P2PKH'', Fin 1)] = Inr (Fin 191)
  \<and> lookup IO_TYPES_inputs ''P2PKH'' = Fin (147 * 4)
  \<and> ceil_div4 (Fin (147 * 4 + 34 * 4 + 8 * 4 + 1 * 4 + 1 * 4)) = Fin 191"
  by code_simp

text \<open>
  Claim C7, as stated, fails: a witness marker in an output key adds nothing. With one
  P2PKH input and one P2WPKH output the weight is the plain weight, without the two
  weight units, and the size is 188 where the two units would make it 189.
\<close>

theorem witness_overhead_output_counterexample:
  "witness_key ''P2WPKH''
   \<and> getWeight [(''P2PKH'', Fin 1)] [(''P2WPKH'', Fin 1)]
       = Inr (plain_weight [(''P2PKH'', Fin 1)] [(''P2WPKH'', Fin 1)])
   \<and> getWeight [(''P2PKH'', Fin 1)] [(''P2WPKH'', Fin 1)]
       \<noteq> Inr (plain_weight [(''P2PKH'', Fin 1)] [(''P2WPKH'', Fin 1)] + Fin 2)
   \<and> getByteCount [(''P2PKH'', Fin 1)] [(''P2WPKH'', Fin 1)] = Inr (Fin 188)
   \<and> ceil_div4 (plain_weight [(''P2PKH'', Fin 1)] [(''P2WPKH'', Fin 1)] + Fin 2) = Fin 189"
  by code_simp

text \<open>
  Claim C7, amended. When \<open>getByteCount\<close> does not raise, the two weight units of the
  witness marker and flag are added to the weight exactly once if some input key contains
  the witness marker \<open>W\<close>, and not at all otherwise; the output keys play no part.
\<close>

theorem witness_overhead_inputs_only:
  assumes "\<not> raises ins outs"
  shows "getWeight ins outs =
           Inr (plain_weight ins outs
                + (if \<exists>e \<in> set ins. witness_key (fst e) then Fin 2 else 0))"
  using assms getWeight_cases[of ins outs]
  by (simp add: plain_weight_def ac_simps)

theorem witness_overhead_inputs_only_witness:
  "\<not> raises [(''P2WPKH'', Fin 1)] [(''P2PKH'', Fin 1)]
   \<and> getWeight [(''P2WPKH'', Fin 1)] [(''P2PKH'', Fin 1)]
       = Inr (plain_weight [(''P2WPKH'', Fin 1)] [(''P2PKH'', Fin 1)] + Fin 2)
   \<and> \<not> raises [(''P2PKH'', Fin 1)] [(''P2WPKH'', Fin 1)]
   \<and> getWeight [(''P2PKH'', Fin 1)] [(''P2WPKH'', Fin 1)]
       = Inr (plain_weight [(''P2PKH'', Fin 1)] [(''P2WPKH'', Fin 1)] + 0)"
proof -
  have a: "\<not> raises [(''P2WPKH'', Fin 1)] [(''P2PKH'', Fin 1)]" by code_simp
  have b: "\<not> raises [(''P2PKH'', Fin 1)] [(''P2WPKH'', Fin 1)]" by code_simp
  have wa: "witness_key ''P2WPKH''" and wb: "\<not> witness_key ''P2PKH''" by code_simp+
  show ?thesis
    using a b witness_overhead_inputs_only[OF a] witness_overhead_inputs_only[OF b] wa wb by simp
qed

text \<open>
  Claim C6, as stated, fails in both directions. A multisig tag of the wrong shape that
  still has one colon (\<open>MULTISIG-P2SH:2\<close>, with no \<open>n\<close>) raises nothing and gives \<open>NaN\<close>,
  as does any multisig tag among the outputs; and counts that are each valid raise a
  \<open>RangeError\<close> when their total exceeds the maximum safe integer.
\<close>

theorem getByteCount_raises_counterexample:
  "getByteCount [(''MULTISIG-P2SH:2'', Fin 2)] [(''P2PKH'', Fin 1)] = Inr NaN
   \<and> getByteCount [(''P2PKH'', Fin 1)] [(''MULTISIG-P2SH'', Fin 1)] = Inr NaN
   \<and> getByteCount [(''P2PKH'', Fin 9007199254740991), (''P2WPKH'', Fin 1)] [(''P2PKH'', Fin 1)]
       = Inl RangeError"
  by code_simp

text \<open>
  Claim C6, amended. \<open>getByteCount\<close> raises exactly when some input or output count is
  negative, fractional, \<open>NaN\<close> or above the maximum safe integer, or some input key that
  starts with \<open>MULTISIG\<close> does not split at the colon into exactly two parts, or the total
  of the input counts or of the output counts is above the maximum safe integer. The
  error that names a key is raised only for such an input key.
\<close>

theorem getByteCount_raises_iff:
  "(isl (getByteCount ins outs) \<longleftrightarrow> raises ins outs)
   \<and> (\<forall>k. getByteCount ins outs = Inl (InvalidInput k) \<longrightarrow> (\<exists>e \<in> set ins. fst e = k \<and> bad_shape k))"
  using getByteCount_raises getByteCount_InvalidInput by blast

theorem getByteCount_raises_iff_witness:
  "isl (getByteCount [(''P2PKH'', Fin (1/2))] []) \<and> raises [(''P2PKH'', Fin (1/2))] []
   \<and> isl (getByteCount [(''P2PKH'', Fin (- 1))] []) \<and> raises [(''P2PKH'', Fin (- 1))] []
   \<and> isl (getByteCount [] [(''P2PKH'', Fin 9007199254740992)]) \<and> raises [] [(''P2PKH'', Fin 9007199254740992)]
   \<and> isl (getByteCount [(''MULTISIG-P2SH'', Fin 1)] []) \<and> raises [(''MULTISIG-P2SH'', Fin 1)] []
   \<and> getByteCount [(''MULTISIG-P2SH'', Fin 1)] [] = Inl (InvalidInput ''MULTISIG-P2SH'')
   \<and> bad_shape ''MULTISIG-P2SH''"
proof -
  have r: "raises [(''P2PKH'', Fin (1/2))] []" "raises [(''P2PKH'', Fin (- 1))] []"
    "raises [] [(''P2PKH'', Fin 9007199254740992)]" "raises [(''MULTISIG-P2SH'', Fin 1)] []"
    by code_simp+
  have e: "getByteCount [(''MULTISIG-P2SH'', Fin 1)] [] = Inl (InvalidInput ''MULTISIG-P2SH'')"
    by code_simp
  show ?thesis
    using r e getByteCount_raises_iff[of "[(''P2PKH'', Fin (1/2))]" "[]"] getByteCount_raises_iff[of "[(''P2PKH'', Fin (- 1))]" "[]"]
      getByteCount_raises_iff[of "[]" "[(''P2PKH'', Fin 9007199254740992)]"] getByteCount_raises_iff[of "[(''MULTISIG-P2SH'', Fin 1)]" "[]"]
    by auto
qed

text \<open>
  Claim C9, as stated, fails: \<open>selectAll\<close> does not always return. A coin whose type is
  the bare multisig tag \<open>MULTISIG-P2SH\<close> makes the size estimate throw, and \<open>selectAll\<close>
  with it. And with no eligible coin the fee is 0 only for a fee rate that is not
  negative: at the fee rate \<open>-1\<close> the fee is \<open>-44\<close> and the output is worth 44.
\<close>

theorem selectAll_raises_counterexample:
  "selectAll example_env (Fin 1) [(p2pkh_coin 1000)\<lparr>type := Some ''MULTISIG-P2SH''\<rparr>] ''out''
     = Inl (InvalidInput ''MULTISIG-P2SH'')
   \<and> selectAll example_env (Fin (- 1)) [] ''out''
     = Inr \<lparr>fee = Fin (- 44), inputs = [],
            outputs = [\<lparr>coin_value = Fin 44, address = ''out'', change = False,
                         type = Some ''P2PKH''\<rparr>]\<rparr>"
  by code_simp

text \<open>
  Claim C9, amended. \<open>selectAll\<close> raises exactly when an eligible coin has a multisig type
  that does not split at the colon into two parts, or a type that is the name of a method
  every object inherits (its count is then not a number), or more eligible coins are
  counted than the maximum safe integer. Otherwise it returns the eligible coins as
  inputs and exactly one output, at the given address, whose value is the effective
  balance of the eligible coins, the fee being the rest of their value. With no eligible
  coin and a fee rate that is a number and not negative, it returns the fee 0, no inputs,
  and one output of value 0 at the given address.
\<close>

theorem selectAll_single_output:
  assumes "eligible = filter (\<lambda>c. effectiveValue E f c > 0) coins"
  shows "(isl (selectAll E f coins outAddress) \<longleftrightarrow>
            (\<exists>c \<in> set eligible. scriptType c \<in> set Object_prototype_methods
                                \<or> bad_shape (scriptType c))
            \<or> 9007199254740991 < length (counted_coins eligible))
       \<and> (\<forall>bytes. transactionBytes eligible [emptyObject] = Inr bytes \<longrightarrow>
            effectiveBalance f eligible [emptyObject]
              = Inr (clamp0 (total_value eligible - bytes * f))
            \<and> selectAll E f coins outAddress
              = Inr \<lparr>fee = total_value eligible - clamp0 (total_value eligible - bytes * f),
                     inputs = eligible,
                     outputs = [\<lparr>coin_value = clamp0 (total_value eligible - bytes * f),
                                 address = outAddress, change = False,
                                 type = Some (typeOfAddress E outAddress)\<rparr>]\<rparr>)
       \<and> (\<forall>s. selectAll E f coins outAddress = Inr s \<longrightarrow>
            inputs s = eligible
            \<and> (\<exists>v. effectiveBalance f eligible [emptyObject] = Inr v
                   \<and> outputs s = [\<lparr>coin_value = v, address = outAddress, change = False,
                                     type = Some (typeOfAddress E outAddress)\<rparr>]
                   \<and> fee s = total_value eligible - v))
       \<and> (eligible = [] \<and> 0 \<le> f \<longrightarrow>
            selectAll E f coins outAddress
              = Inr \<lparr>fee = 0, inputs = [],
                     outputs = [\<lparr>coin_value = 0, address = outAddress, change = False,
                                 type = Some (typeOfAddress E outAddress)\<rparr>]\<rparr>)"
proof (intro conjI allI impI)
  show "isl (selectAll E f coins outAddress) \<longleftrightarrow>
            (\<exists>c \<in> set eligible. scriptType c \<in> set Object_prototype_methods
                                \<or> bad_shape (scriptType c))
            \<or> 9007199254740991 < length (counted_coins eligible)"
    unfolding assms by (rule selectAll_raises_iff)
next
  fix bytes
  assume tb: "transactionBytes eligible [emptyObject] = Inr bytes"
  then show "effectiveBalance f eligible [emptyObject]
              = Inr (clamp0 (total_value eligible - bytes * f))"
    by (simp add: effectiveBalance_def)
  then show "selectAll E f coins outAddress
              = Inr \<lparr>fee = total_value eligible - clamp0 (total_value eligible - bytes * f),
                     inputs = eligible,
                     outputs = [\<lparr>coin_value = clamp0 (total_value eligible - bytes * f),
                                 address = outAddress, change = False,
                                 type = Some (typeOfAddress E outAddress)\<rparr>]\<rparr>"
    unfolding selectAll_def assms[symmetric] by (simp add: Let_def fromJS_def)
next
  fix s
  assume r: "selectAll E f coins outAddress = Inr s"
  then obtain v where v: "effectiveBalance f eligible [emptyObject] = Inr v"
    and s: "s = \<lparr>fee = total_value eligible - v, inputs = eligible,
                 outputs = [fromJS E v outAddress False]\<rparr>"
    unfolding selectAll_def assms[symmetric] by (auto simp: Let_def split: sum.splits)
  show "inputs s = eligible" unfolding s by simp
  show "\<exists>v. effectiveBalance f eligible [emptyObject] = Inr v
           \<and> outputs s = [\<lparr>coin_value = v, address = outAddress, change = False,
                             type = Some (typeOfAddress E outAddress)\<rparr>]
           \<and> fee s = total_value eligible - v"
    using v unfolding s by (simp add: fromJS_def)
next
  assume a: "eligible = [] \<and> 0 \<le> f"
  then have "effectiveBalance f eligible [emptyObject] = Inr 0"
    using transactionBytes_empty clamp0_nonpos[of f] by (simp add: effectiveBalance_def)
  then show "selectAll E f coins outAddress
              = Inr \<lparr>fee = 0, inputs = [],
                     outputs = [\<lparr>coin_value = 0, address = outAddress, change = False,
                                 type = Some (typeOfAddress E outAddress)\<rparr>]\<rparr>"
    unfolding selectAll_def assms[symmetric] using a
    by (simp add: Let_def fromJS_def zero_number_def)
qed

theorem selectAll_single_output_witness:
  "transactionBytes [p2pkh_coin 1000, p2pkh_coin 2000, p2pkh_coin 3000] [emptyObject] = Inr (Fin 485)
   \<and> selectAll example_env (Fin 1) [p2pkh_coin 1000, p2pkh_coin 2000, p2pkh_coin 3000] ''out''
       = Inr \<lparr>fee = Fin 485, inputs = [p2pkh_coin 1000, p2pkh_coin 2000, p2pkh_coin 3000],
              outputs = [\<lparr>coin_value = Fin 5515, address = ''out'', change = False,
                           type = Some ''P2PKH''\<rparr>]\<rparr>
   \<and> effectiveBalance (Fin 1) [p2pkh_coin 1000, p2pkh_coin 2000, p2pkh_coin 3000] [emptyObject]
       = Inr (Fin 5515)
   \<and> filter (\<lambda>c. effectiveValue example_env (Fin 1) c > 0) [p2pkh_coin 100] = []
   \<and> (0 :: number) \<le> Fin 1
   \<and> selectAll example_env (Fin 1) [p2pkh_coin 100] ''out''
       = Inr \<lparr>fee = 0, inputs = [],
              outputs = [\<lparr>coin_value = 0, address = ''out'', change = False,
                           type = Some ''P2PKH''\<rparr>]\<rparr>
   \<and> isl (selectAll example_env (Fin 1) [(p2pkh_coin 1000)\<lparr>type := Some ''constructor''\<rparr>] ''out'')
   \<and> selectAll example_env (Fin 1) [(p2pkh_coin 1000)\<lparr>type := Some ''constructor''\<rparr>] ''out''
       = Inl RangeError
   \<and> selectAll example_env (Fin 1) [(p2pkh_coin 1000)\<lparr>type := Some ''__proto__''\<rparr>] ''out''
       = Inr \<lparr>fee = Fin 44, inputs = [(p2pkh_coin 1000)\<lparr>type := Some ''__proto__''\<rparr>],
              outputs = [\<lparr>coin_value = Fin 956, address = ''out'', change = False,
                           type = Some ''P2PKH''\<rparr>]\<rparr>"
proof -
  let ?cs = "[p2pkh_coin 1000, p2pkh_coin 2000, p2pkh_coin 3000]"
  let ?s = "\<lparr>fee = Fin 485, inputs = ?cs,
              outputs = [\<lparr>coin_value = Fin 5515, address = ''out'', change = False,
                           type = Some ''P2PKH''\<rparr>]\<rparr>"
  let ?k = "(p2pkh_coin 1000)\<lparr>type := Some ''constructor''\<rparr>"
  have tb: "transactionBytes ?cs [emptyObject] = Inr (Fin 485)" by code_simp
  have el: "filter (\<lambda>c. effectiveValue example_env (Fin 1) c > 0) ?cs = ?cs" by code_simp
  have e: "filter (\<lambda>c. effectiveValue example_env (Fin 1) c > 0) [p2pkh_coin 100] = []" by code_simp
  have p: "(0 :: number) \<le> Fin 1" by code_simp
  have v: "clamp0 (total_value ?cs - Fin 485 * Fin 1) = Fin 5515"
    "total_value ?cs - Fin 5515 = Fin 485"
    "typeOfAddress example_env ''out'' = ''P2PKH''"
    by code_simp+
  have a: "selectAll example_env (Fin 1) ?cs ''out'' = Inr ?s"
    using selectAll_single_output[OF refl, of example_env "Fin 1" ?cs "''out''"] tb v
    unfolding el by simp
  have "\<exists>v. effectiveBalance (Fin 1) ?cs [emptyObject] = Inr v
           \<and> outputs ?s = [\<lparr>coin_value = v, address = ''out'', change = False,
                              type = Some (typeOfAddress example_env ''out'')\<rparr>]
           \<and> fee ?s = total_value ?cs - v"
    using selectAll_single_output[OF refl, of example_env "Fin 1" ?cs "''out''",
        THEN conjunct2, THEN conjunct2, THEN conjunct1, THEN spec, THEN mp, OF a, THEN conjunct2]
    unfolding el .
  then have eb: "effectiveBalance (Fin 1) ?cs [emptyObject] = Inr (Fin 5515)"
    by auto
  have b: "selectAll example_env (Fin 1) [p2pkh_coin 100] ''out''
       = Inr \<lparr>fee = 0, inputs = [],
              outputs = [\<lparr>coin_value = 0, address = ''out'', change = False,
                           type = Some ''P2PKH''\<rparr>]\<rparr>"
    using selectAll_single_output[OF refl, of example_env "Fin 1" "[p2pkh_coin 100]" "''out''"] e p v(3) by simp
  have elk: "filter (\<lambda>c. effectiveValue example_env (Fin 1) c > 0) [?k] = [?k]" by code_simp
  have m: "scriptType ?k \<in> set Object_prototype_methods" by code_simp
  have c: "isl (selectAll example_env (Fin 1) [?k] ''out'')"
    using selectAll_single_output[OF refl, of example_env "Fin 1" "[?k]" "''out''", THEN conjunct1] m
    unfolding elk by simp
  have d: "selectAll example_env (Fin 1) [?k] ''out'' = Inl RangeError" by code_simp
  have g: "selectAll example_env (Fin 1) [(p2pkh_coin 1000)\<lparr>type := Some ''__proto__''\<rparr>] ''out''
       = Inr \<lparr>fee = Fin 44, inputs = [(p2pkh_coin 1000)\<lparr>type := Some ''__proto__''\<rparr>],
              outputs = [\<lparr>coin_value = Fin 956, address = ''out'', change = False,
                           type = Some ''P2PKH''\<rparr>]\<rparr>"
    by code_simp
  show ?thesis
    by (intro conjI) (rule tb a eb e p b c d g)+
qed

text \<open>
  Claim C10. A key the tables do not know raises nothing: whether \<open>getByteCount\<close> raises
  does not depend on the tables (\<open>raises\<close> does not mention them), and when it does not
  raise, an input key that does not start with \<open>MULTISIG\<close> and is absent from the input
  table, or an output key absent from the output table (a multisig tag included), makes
  the result \<open>NaN\<close>.
\<close>

theorem getByteCount_unknown_key_NaN:
  assumes "\<not> raises ins outs"
    and "(\<exists>e \<in> set ins. take 8 (fst e) \<noteq> ''MULTISIG'' \<and> map_of IO_TYPES_inputs (fst e) = None)
         \<or> (\<exists>e \<in> set outs. map_of IO_TYPES_outputs (fst e) = None)"
  shows "getByteCount ins outs = Inr NaN"
proof -
  have "plain_weight ins outs = NaN"
    using assms(2)
  proof
    assume "\<exists>e \<in> set ins. take 8 (fst e) \<noteq> ''MULTISIG'' \<and> map_of IO_TYPES_inputs (fst e) = None"
    then obtain e where "e \<in> set ins" "input_weight e = NaN"
      using input_weight_unknown by blast
    then show ?thesis by (rule plain_weight_NaN_in)
  next
    assume "\<exists>e \<in> set outs. map_of IO_TYPES_outputs (fst e) = None"
    then obtain e where "e \<in> set outs" "output_weight e = NaN"
      using output_weight_unknown by blast
    then show ?thesis by (rule plain_weight_NaN_out)
  qed
  then show ?thesis
    using getByteCount_not_raises[OF assms(1)] by simp
qed

theorem getByteCount_unknown_key_NaN_witness:
  "\<not> raises [(''P2TR'', Fin 1)] [(''P2PKH'', Fin 1)]
   \<and> take 8 ''P2TR'' \<noteq> ''MULTISIG'' \<and> map_of IO_TYPES_inputs ''P2TR'' = None
   \<and> getByteCount [(''P2TR'', Fin 1)] [(''P2PKH'', Fin 1)] = Inr NaN
   \<and> \<not> raises [(''P2PKH'', Fin 1)] [(''MULTISIG-P2SH:2-3'', Fin 1)]
   \<and> map_of IO_TYPES_outputs ''MULTISIG-P2SH:2-3'' = None
   \<and> getByteCount [(''P2PKH'', Fin 1)] [(''MULTISIG-P2SH:2-3'', Fin 1)] = Inr NaN"
proof -
  have a: "\<not> raises [(''P2TR'', Fin 1)] [(''P2PKH'', Fin 1)]" by code_simp
  have b: "take 8 ''P2TR'' \<noteq> ''MULTISIG'' \<and> map_of IO_TYPES_inputs ''P2TR'' = None" by code_simp
  have c: "\<not> raises [(''P2PKH'', Fin 1)] [(''MULTISIG-P2SH:2-3'', Fin 1)]" by code_simp
  have d: "map_of IO_TYPES_outputs ''MULTISIG-P2SH:2-3'' = None" by code_simp
  have "getByteCount [(''P2TR'', Fin 1)] [(''P2PKH'', Fin 1)] = Inr NaN"
    by (rule getByteCount_unknown_key_NaN[OF a]) (use b in simp)
  moreover have "getByteCount [(''P2PKH'', Fin 1)] [(''MULTISIG-P2SH:2-3'', Fin 1)] = Inr NaN"
    by (rule getByteCount_unknown_key_NaN[OF c]) (use d in simp)
  ultimately show ?thesis using a b c d by blast
qed

end
